theory Spec2Isabelle
  imports Main "HOL-Library.Sublist"
begin

section \<open>Errors\<close>

text \<open>
  The exceptions that the modelled code raises or lets through. \<open>KeyboardInterrupt\<close> is
  the only one that is not an \<open>Exception\<close>: \<open>process_task\<close> handles it in a branch of
  its own and re-raises it. An \<open>OSError\<close> has its \<open>errno\<close>, its \<open>strerror\<close> and, when the
  failed call was given a path, its \<open>filename\<close>.
\<close>

datatype exn =
    RuntimeError string
  | OSError int string "string option"
  | KeyError string
  | IndexError
  | ZeroDivisionError
  | HTTPException int string
  | KeyboardInterrupt

section \<open>Strings\<close>

text \<open>
  A string is a list of 8-bit characters. \<open>lower\<close> and \<open>strip\<close> act on the ASCII range,
  where they agree with Python's \<open>str.lower\<close> and \<open>str.strip\<close>; the keywords searched
  for in the output are ASCII letters, so the search is not affected by what Python does to
  other code points. Python's \<open>k in s\<close> on strings is \<open>sublist k s\<close>.
\<close>

definition lower_char :: "char \<Rightarrow> char" where
  "lower_char c =
     (case map_of (zip ''ABCDEFGHIJKLMNOPQRSTUVWXYZ'' ''abcdefghijklmnopqrstuvwxyz'') c of
        None \<Rightarrow> c
      | Some l \<Rightarrow> l)"

definition lower :: "string \<Rightarrow> string" where
  "lower s = map lower_char s"

definition isspace :: "char \<Rightarrow> bool" where
  "isspace c = (c \<in> set [CHR 0x09, CHR 0x0A, CHR 0x0B, CHR 0x0C, CHR 0x0D,
                          CHR 0x1C, CHR 0x1D, CHR 0x1E, CHR 0x1F, CHR 0x20])"

definition strip :: "string \<Rightarrow> string" where
  "strip s = rev (dropWhile isspace (rev (dropWhile isspace s)))"

text \<open>\<open>str\<close> of a Python integer: decimal digits, with a minus sign when negative.\<close>

fun str_nat :: "nat \<Rightarrow> string" where
  "str_nat n =
     (if n < 10 then [''0123456789'' ! n]
      else str_nat (n div 10) @ [''0123456789'' ! (n mod 10)])"

declare str_nat.simps [simp del]

definition str_int :: "int \<Rightarrow> string" where
  "str_int i = (if i < 0 then CHR ''-'' # str_nat (nat (- i)) else str_nat (nat i))"

text \<open>
  \<open>repr\<close> of a Python string: between single quotes, or between double quotes when it
  has a single quote and no double quote; the quote in use and the backslash are escaped
  with a backslash; tab, newline and carriage return are written as a backslash and the
  letter \<open>t\<close>, \<open>n\<close> or \<open>r\<close>, and the other control characters of ASCII as a backslash,
  \<open>x\<close> and two hexadecimal digits. Characters outside ASCII are taken to be printable.
\<close>

definition hex_digit :: "nat \<Rightarrow> char" where
  "hex_digit n = ''0123456789abcdef'' ! n"

definition repr_char :: "char \<Rightarrow> char \<Rightarrow> string" where
  "repr_char quote c =
     (if c = quote \<or> c = CHR 0x5C then [CHR 0x5C, c]
      else if c = CHR 0x09 then [CHR 0x5C, CHR ''t'']
      else if c = CHR 0x0A then [CHR 0x5C, CHR ''n'']
      else if c = CHR 0x0D then [CHR 0x5C, CHR ''r'']
      else if (of_char c :: nat) < 32 \<or> c = CHR 0x7F
        then [CHR 0x5C, CHR ''x'', hex_digit (of_char c div 16), hex_digit (of_char c mod 16)]
      else [c])"

definition repr :: "string \<Rightarrow> string" where
  "repr s =
     (let quote = (if CHR 0x27 \<in> set s \<and> CHR 0x22 \<notin> set s then CHR 0x22 else CHR 0x27)
      in [quote] @ concat (map (repr_char quote) s) @ [quote])"

text \<open>\<open>str(e)\<close>, the text that ends up in a failed job's error field.\<close>

fun str_exn :: "exn \<Rightarrow> string" where
  "str_exn (RuntimeError m) = m"
| "str_exn (OSError n m None) = ''[Errno '' @ str_int n @ ''] '' @ m"
| "str_exn (OSError n m (Some filename)) =
     ''[Errno '' @ str_int n @ ''] '' @ m @ '': '' @ repr filename"
| "str_exn (KeyError k) = repr k"
| "str_exn IndexError = ''list index out of range''"
| "str_exn ZeroDivisionError = ''integer division or modulo by zero''"
| "str_exn (HTTPException c m) = str_int c @ '': '' @ m"
| "str_exn KeyboardInterrupt = []"

text \<open>
  Paths are kept as their string form. \<open>p / q\<close> of pathlib is \<open>pjoin\<close>,
  \<open>os.path.basename\<close> and \<open>Path.name\<close> are \<open>basename\<close>: what follows the last slash.
\<close>

definition pjoin :: "string \<Rightarrow> string \<Rightarrow> string" where
  "pjoin p q = p @ ''/'' @ q"

definition basename :: "string \<Rightarrow> string" where
  "basename p = rev (takeWhile (\<lambda>c. c \<noteq> CHR ''/'') (rev p))"

section \<open>Device topology (npu\_pipeline.py, \_calculate\_distributed\_config)\<close>

text \<open>
  Python's \<open>//\<close> raises on a zero divisor; that is the only failure of the function and
  it is reached for a device count of 0 only.
\<close>

definition floordiv :: "int \<Rightarrow> int \<Rightarrow> exn + int" where
  "floordiv a b = (if b = 0 then Inl ZeroDivisionError else Inr (a div b))"

definition calculate_distributed_config :: "int \<Rightarrow> exn + (int \<times> int)" where
  "calculate_distributed_config device_count =
     (if device_count = 1 then Inr (1, 1)
      else if device_count = 2 then Inr (2, 1)
      else if device_count = 4 then Inr (4, 1)
      else if device_count = 8 then Inr (4, 2)
      else (let tp_size = min 4 device_count in
            case floordiv device_count tp_size of
              Inl e \<Rightarrow> Inl e
            | Inr ep_size \<Rightarrow> Inr (tp_size, ep_size)))"

section \<open>Requests and job records (models.py, hidream\_api.py)\<close>

datatype TaskStatus = PENDING | PROCESSING | COMPLETED | FAILED

text \<open>
  The inference runners read three attributes of the request they are given and nothing
  else; the fallback path hands them an object that has only these three. \<open>Request\<close> is
  that view, and the request of the API extends it with the remaining fields of
  \<open>ImageGenerationRequest\<close> (its \<open>guidance_scale\<close>, a float that no code below reads,
  is left out).
\<close>

record Request =
  num_images_per_prompt :: int
  resolution :: string
  num_inference_steps :: int

record ImageGenerationRequest = Request +
  prompt :: string
  negative_prompt :: "string option"
  seed :: "int option"
  batch_size :: int
  infer_type :: string

text \<open>The defaults that models.py gives to the three fields.\<close>

definition default_request :: Request where
  "default_request =
     \<lparr>num_images_per_prompt = 1, resolution = ''1024x1024'', num_inference_steps = 50\<rparr>"

text \<open>
  One entry of \<open>status_dict\<close>. Instants are microsecond counts; \<open>processing_time\<close> is the
  difference of two of them.
\<close>

record job =
  status :: TaskStatus
  progress :: int
  result_urls :: "string list"
  error :: string
  created_at :: int
  completed_at :: "int option"
  processing_time :: "int option"
  request :: ImageGenerationRequest

text \<open>
  The state of the application: the dictionary, the queue, and \<open>seen\<close>, the dictionaries
  that have existed so far, one per write and in order. A status query reads the
  dictionary at some moment, so the records it can observe are those of \<open>seen\<close>.
\<close>

record server =
  status_dict :: "string \<rightharpoonup> job"
  task_queue :: "(string \<times> ImageGenerationRequest) list"
  seen :: "(string \<rightharpoonup> job) list"

definition store :: "(string \<rightharpoonup> job) \<Rightarrow> server \<Rightarrow> server" where
  "store d srv = srv\<lparr>status_dict := d, seen := seen srv @ [d]\<rparr>"

definition update_progress :: "string \<Rightarrow> int \<Rightarrow> server \<Rightarrow> server" where
  "update_progress task_id p srv =
     (case status_dict srv task_id of
        None \<Rightarrow> srv
      | Some j \<Rightarrow> store ((status_dict srv)(task_id \<mapsto> j\<lparr>progress := min p 95\<rparr>)) srv)"

text \<open>
  \<open>submit\<close>: \<open>task_id\<close> is the identifier drawn for the request and \<open>now\<close> the clock;
  \<open>pipeline_ready\<close> says whether the pipeline has been initialised. \<open>new_job\<close> is the
  record that it creates.
\<close>

definition new_job :: "int \<Rightarrow> ImageGenerationRequest \<Rightarrow> job" where
  "new_job now req =
     \<lparr>status = PENDING, progress = 0, result_urls = [], error = [],
      created_at = now, completed_at = None, processing_time = None, request = req\<rparr>"

definition submit ::
  "bool \<Rightarrow> string \<Rightarrow> int \<Rightarrow> ImageGenerationRequest \<Rightarrow> server \<Rightarrow> exn + server" where
  "submit pipeline_ready task_id now req srv =
     (if \<not> pipeline_ready then Inl (HTTPException 503 ''Pipeline not ready'')
      else
        (let srv1 = store ((status_dict srv)(task_id \<mapsto> new_job now req)) srv
         in Inr (srv1\<lparr>task_queue := task_queue srv1 @ [(task_id, req)]\<rparr>)))"

section \<open>The environment of the pipeline\<close>

text \<open>
  What a launched process does is not in the repository: it is given by the environment.
  A process either cannot be launched (\<open>Popen\<close> raises an \<open>OSError\<close> with the given
  \<open>errno\<close>, \<open>strerror\<close> and \<open>filename\<close>), or prints the given chunks (the successive
  non-final results of \<open>readline\<close>) and exits with a code, or is still printing when the
  thread is interrupted. Processes that neither exit nor are interrupted are outside the
  model.
\<close>

datatype proc_outcome =
    Exited "string list" int
  | LaunchFailed int string "string option"
  | Interrupted "string list"

text \<open>
  The environment: the outcome of launching a command line under an environment; which
  absolute paths name a directory that the process can enter, and for the other paths the
  \<open>errno\<close> and \<open>strerror\<close> of the error that entering them raises; the names in a
  directory; the modification time of a path (a count of time units, compared as Python
  compares the floats); and \<open>os.environ\<close>. It does not change while a task runs.
  A job launches a command line at most once and calls the collector at most once:
  \<open>popen\<close>, \<open>listdir\<close> and \<open>getmtime\<close> give what is then found, from the directory in
  which the runner is at that moment.
\<close>

record world =
  popen :: "string list \<Rightarrow> (string \<rightharpoonup> string) \<Rightarrow> proc_outcome"
  is_dir :: "string \<Rightarrow> bool"
  dir_error :: "string \<Rightarrow> int \<times> string"
  listdir :: "string \<Rightarrow> string list"
  getmtime :: "string \<Rightarrow> int"
  os_environ :: "string \<rightharpoonup> string"

text \<open>
  The immutable attributes of \<open>NPUHiDreamPipeline\<close>. The mutable one, \<open>device_count\<close>,
  is in the state below.
\<close>

record pipeline =
  model_path :: string
  extra_model_path :: string
  project_path :: string
  tp_size :: int
  ep_size :: int
  output_dir :: string

text \<open>
  The state that the pipeline reads and writes: \<open>self.device_count\<close>; the working
  directory of the process; \<open>runs\<close>, the command lines that \<open>_execute_inference\<close> has
  been called with so far; \<open>launched\<close>, the command lines given to \<open>Popen\<close> so far; and
  the state \<open>sink\<close> that the progress callback acts on. The working directory of a
  process is an absolute path: \<open>cwd\<close> holds what follows its leading slash, and
  \<open>workdir\<close> is the path.
\<close>

record 's state =
  device_count :: int
  cwd :: string
  runs :: "string list list"
  launched :: "string list list"
  sink :: 's

definition workdir :: "'s state \<Rightarrow> string" where
  "workdir st = CHR ''/'' # cwd st"

type_synonym 's callback = "(int \<Rightarrow> 's \<Rightarrow> 's) option"

text \<open>\<open>if progress_callback: progress_callback(p)\<close>\<close>

definition notify :: "'s callback \<Rightarrow> int \<Rightarrow> 's state \<Rightarrow> 's state" where
  "notify cb p st = (case cb of None \<Rightarrow> st | Some f \<Rightarrow> st\<lparr>sink := f p (sink st)\<rparr>)"

text \<open>
  \<open>os.getcwd\<close> raises when the working directory no longer exists. The path it returns
  is used for one thing, to come back to the directory.
\<close>

definition getcwd :: "world \<Rightarrow> 's state \<Rightarrow> exn + string" where
  "getcwd w st =
     (if is_dir w (workdir st) then Inr (workdir st)
      else Inl (OSError 2 ''No such file or directory'' None))"

text \<open>
  \<open>os.chdir\<close>. A path that starts with a slash is absolute; any other path is followed
  from the working directory, so it names what the path joined to the working directory
  names (\<open>abspath\<close>, the join of \<open>os.path\<close>). The empty path names nothing.
  \<open>enterable w dir p\<close> says that \<open>os.chdir(p)\<close> succeeds when the working directory is
  \<open>dir\<close>, and \<open>chdir_failure\<close> is the exception that it raises when it does not.
\<close>

definition abspath :: "string \<Rightarrow> string \<Rightarrow> string" where
  "abspath dir p =
     (if prefix ''/'' p then p
      else if suffix ''/'' dir then dir @ p
      else dir @ ''/'' @ p)"

definition enterable :: "world \<Rightarrow> string \<Rightarrow> string \<Rightarrow> bool" where
  "enterable w dir p = (p \<noteq> [] \<and> is_dir w (abspath dir p))"

definition chdir_failure :: "world \<Rightarrow> string \<Rightarrow> string \<Rightarrow> exn" where
  "chdir_failure w dir p =
     (if p = [] then OSError 2 ''No such file or directory'' (Some p)
      else OSError (fst (dir_error w (abspath dir p))) (snd (dir_error w (abspath dir p)))
             (Some p))"

definition chdir :: "world \<Rightarrow> string \<Rightarrow> 's state \<Rightarrow> exn + 's state" where
  "chdir w p st =
     (if enterable w (workdir st) p
      then Inr (st\<lparr>cwd := tl (abspath (workdir st) p)\<rparr>)
      else Inl (chdir_failure w (workdir st) p))"

section \<open>Result collector (npu\_pipeline.py, \_collect\_images)\<close>

text \<open>
  \<open>output_dir.glob('*' + ext)\<close>: the names of the directory that end with \<open>ext\<close>, as
  paths. \<open>sort(key, reverse=True)\<close> is the stable sort on the reversed list, reversed.
  \<open>xs[:n]\<close> counts from the end when \<open>n\<close> is negative.
\<close>

definition glob :: "world \<Rightarrow> string \<Rightarrow> string \<Rightarrow> string list" where
  "glob w dir ext = map (pjoin dir) (filter (suffix ext) (listdir w dir))"

definition sort_reverse :: "('a \<Rightarrow> int) \<Rightarrow> 'a list \<Rightarrow> 'a list" where
  "sort_reverse key xs = rev (sort_key key (rev xs))"

definition slice_to :: "int \<Rightarrow> 'a list \<Rightarrow> 'a list" where
  "slice_to n xs = (if 0 \<le> n then take (nat n) xs else take (length xs - nat (- n)) xs)"

definition image_extensions :: "string list" where
  "image_extensions = [''.png'', ''.jpg'', ''.jpeg'', ''.webp'']"

definition collect_images :: "world \<Rightarrow> string \<Rightarrow> int \<Rightarrow> string list" where
  "collect_images w dir num_images =
     (let image_paths = concat (map (glob w dir) image_extensions) in
      if image_paths \<noteq> [] then slice_to num_images (sort_reverse (getmtime w) image_paths)
      else [])"

section \<open>Inference process runner (npu\_pipeline.py, \_execute\_inference)\<close>

definition progress_keywords :: "string list" where
  "progress_keywords = [''step'', ''sampling'', ''inference'']"

definition has_progress_keyword :: "string \<Rightarrow> bool" where
  "has_progress_keyword output_line =
     list_ex (\<lambda>keyword. sublist keyword (lower output_line)) progress_keywords"

text \<open>
  The \<open>while True\<close> loop over \<open>readline\<close>, for the chunks that a process prints before it
  exits: an empty chunk is skipped, a chunk whose stripped text has a keyword advances
  the local counter \<open>progress\<close> (here \<open>prog\<close>) and forwards it. The captured lines are
  only written to the log, which is not modelled.
\<close>

fun read_output :: "'s callback \<Rightarrow> string list \<Rightarrow> int \<Rightarrow> 's state \<Rightarrow> 's state" where
  "read_output cb [] prog st = st"
| "read_output cb (output # rest) prog st =
     (if output \<noteq> [] then
        (if has_progress_keyword (strip output) then
           (let prog' = min (prog + 2) 85
            in read_output cb rest prog' (notify cb prog' st))
         else read_output cb rest prog st)
      else read_output cb rest prog st)"

text \<open>The command line and the environment of a single-device run.\<close>

definition single_cmd ::
  "pipeline \<Rightarrow> string \<Rightarrow> string \<Rightarrow> string \<Rightarrow> 'r Request_scheme \<Rightarrow> string list" where
  "single_cmd pl task_id prompt_file out_dir req =
     [''python3'', ''inference.py'',
      ''--model_path'', model_path pl,
      ''--model_path_extra'', extra_model_path pl,
      ''--prompt_file'', prompt_file,
      ''--prompt_file_type'', ''plain'',
      ''--info_file_save_path'', pjoin out_dir (task_id @ ''_info.json''),
      ''--save_dir'', out_dir,
      ''--num_images_per_prompt'', str_int (num_images_per_prompt req),
      ''--resolution'', resolution req,
      ''--num_inference_steps'', str_int (num_inference_steps req),
      ''--batch_size'', ''1'',
      ''--infer_type'', ''Accuracy'',
      ''--device_id'', ''0'']"

definition single_env :: "world \<Rightarrow> (string \<rightharpoonup> string)" where
  "single_env w = os_environ w ++ map_of
     [(''ACL_STREAM_TIMEOUT'', ''7200''),
      (''PYTORCH_NPU_ALLOC_CONF'', ''max_split_size_mb:512''),
      (''TOKENIZERS_PARALLELISM'', ''false''),
      (''HCCL_DISABLE'', ''1'')]"

text \<open>The request object that the fallback path fabricates.\<close>

definition fallback_request :: "int \<Rightarrow> Request" where
  "fallback_request num_images =
     \<lparr>num_images_per_prompt = num_images, resolution = ''1024x1024'',
      num_inference_steps = 50\<rparr>"

text \<open>\<open>finally: os.chdir(original_cwd)\<close>: an exception of the clause replaces the outcome.\<close>

definition finally_chdir ::
  "world \<Rightarrow> string \<Rightarrow> (exn + 'a) \<times> 's state \<Rightarrow> (exn + 'a) \<times> 's state" where
  "finally_chdir w original_cwd out =
     (case chdir w original_cwd (snd out) of
        Inl e \<Rightarrow> (Inl e, snd out)
      | Inr st \<Rightarrow> (fst out, st))"

text \<open>
  \<open>_execute_inference\<close>. On a failed multi-device run it calls \<open>_run_single_inference\<close>,
  which builds \<open>single_cmd\<close> and \<open>single_env\<close> and calls \<open>_execute_inference\<close> again:
  that call is the recursive one here.
\<close>

function execute_inference ::
  "pipeline \<Rightarrow> world \<Rightarrow> string list \<Rightarrow> (string \<rightharpoonup> string) \<Rightarrow> 's callback \<Rightarrow> string \<Rightarrow> int
     \<Rightarrow> 's state \<Rightarrow> (exn + string list) \<times> 's state" where
  "execute_inference pl w cmd env cb out_dir num_images st0 =
     (let st = st0\<lparr>runs := runs st0 @ [cmd]\<rparr> in
      case getcwd w st of
        Inl e \<Rightarrow> (Inl e, st)
      | Inr original_cwd \<Rightarrow>
          finally_chdir w original_cwd
            (case chdir w (project_path pl) st of
               Inl e \<Rightarrow> (Inl e, st)
             | Inr st1 \<Rightarrow>
                 (case cmd of
                    [] \<Rightarrow> (Inl IndexError, st1)
                  | cmd0 # _ \<Rightarrow>
                      (let st2 = st1\<lparr>launched := launched st1 @ [cmd]\<rparr> in
                       case popen w cmd env of
                         LaunchFailed n m filename \<Rightarrow> (Inl (OSError n m filename), st2)
                       | Interrupted outs \<Rightarrow> (Inl KeyboardInterrupt, read_output cb outs 30 st2)
                       | Exited outs return_code \<Rightarrow>
                           (let st3 = read_output cb outs 30 st2 in
                            if return_code \<noteq> 0 then
                              (if device_count st3 > 1 \<and> sublist ''torchrun'' cmd0 then
                                 (let original_device_count = device_count st3;
                                      task_id = basename out_dir;
                                      out = execute_inference pl w
                                              (single_cmd pl task_id
                                                 (pjoin out_dir (task_id @ ''_prompt.txt''))
                                                 out_dir (fallback_request num_images))
                                              (single_env w) cb out_dir
                                              (num_images_per_prompt (fallback_request num_images))
                                              (st3\<lparr>device_count := 1\<rparr>)
                                  in (fst out, (snd out)\<lparr>device_count := original_device_count\<rparr>))
                               else
                                 (Inl (RuntimeError
                                         (''Inference failed with code '' @ str_int return_code)),
                                  st3))
                            else (Inr (collect_images w out_dir num_images), st3))))))"
  by pat_completeness auto
termination
proof (relation "measure (\<lambda>(pl, w, cmd, env, cb, out_dir, num_images, st).
                   case cmd of [] \<Rightarrow> 0 | cmd0 # _ \<Rightarrow> if sublist ''torchrun'' cmd0 then 1 else 0)")
  show "wf (measure (\<lambda>(pl :: pipeline, w :: world, cmd :: string list,
                        env :: string \<rightharpoonup> string, cb :: 's callback, out_dir :: string,
                        num_images :: int, st :: 's state).
                   case cmd of [] \<Rightarrow> 0 | cmd0 # _ \<Rightarrow> if sublist ''torchrun'' cmd0 then 1 else (0::nat)))"
    by simp
qed (simp add: single_cmd_def sublist_Cons_right)

declare execute_inference.simps [simp del]

text \<open>\<open>_run_single_inference\<close> and \<open>_run_distributed_inference\<close>\<close>

definition run_single_inference ::
  "pipeline \<Rightarrow> world \<Rightarrow> string \<Rightarrow> string \<Rightarrow> string \<Rightarrow> 'r Request_scheme \<Rightarrow> 's callback
     \<Rightarrow> 's state \<Rightarrow> (exn + string list) \<times> 's state" where
  "run_single_inference pl w task_id prompt_file out_dir req cb st =
     execute_inference pl w (single_cmd pl task_id prompt_file out_dir req) (single_env w)
       cb out_dir (num_images_per_prompt req) st"

definition distributed_cmd ::
  "pipeline \<Rightarrow> int \<Rightarrow> string \<Rightarrow> string \<Rightarrow> string \<Rightarrow> 'r Request_scheme \<Rightarrow> string list" where
  "distributed_cmd pl dc task_id prompt_file out_dir req =
     [''torchrun'',
      ''--nproc_per_node='' @ str_int dc,
      ''--standalone'',
      ''--nnodes=1'',
      ''inference.py'',
      ''--enable_parallelism'', ''True'',
      ''--tp_size'', str_int (tp_size pl),
      ''--ep_size'', str_int (ep_size pl),
      ''--model_path'', model_path pl,
      ''--model_path_extra'', extra_model_path pl,
      ''--prompt_file'', prompt_file,
      ''--prompt_file_type'', ''plain'',
      ''--info_file_save_path'', pjoin out_dir (task_id @ ''_info.json''),
      ''--save_dir'', out_dir,
      ''--num_images_per_prompt'', str_int (num_images_per_prompt req),
      ''--resolution'', resolution req,
      ''--num_inference_steps'', str_int (num_inference_steps req),
      ''--batch_size'', ''1'',
      ''--infer_type'', ''Accuracy'']"

definition distributed_env :: "world \<Rightarrow> int \<Rightarrow> (string \<rightharpoonup> string)" where
  "distributed_env w dc = os_environ w ++ map_of
     [(''HCCL_TIMEOUT'', ''7200''),
      (''HCCL_BUFFSIZE'', ''2048''),
      (''HCCL_SINGLE_NODE'', ''1''),
      (''HCCL_LOCAL_RANK_NUM'', str_int dc),
      (''HCCL_WHITELIST_DISABLE'', ''1''),
      (''HCCL_SECURITY_ENABLE'', ''0''),
      (''ACL_STREAM_TIMEOUT'', ''7200''),
      (''PYTORCH_NPU_ALLOC_CONF'', ''max_split_size_mb:512''),
      (''TOKENIZERS_PARALLELISM'', ''false'')]"

definition run_distributed_inference ::
  "pipeline \<Rightarrow> world \<Rightarrow> string \<Rightarrow> string \<Rightarrow> string \<Rightarrow> 'r Request_scheme \<Rightarrow> 's callback
     \<Rightarrow> 's state \<Rightarrow> (exn + string list) \<times> 's state" where
  "run_distributed_inference pl w task_id prompt_file out_dir req cb st =
     execute_inference pl w
       (distributed_cmd pl (device_count st) task_id prompt_file out_dir req)
       (distributed_env w (device_count st))
       cb out_dir (num_images_per_prompt req) st"

section \<open>The pipeline entry point (npu\_pipeline.py, generate\_images)\<close>

text \<open>
  Creating the task directory and writing the prompt file act on the file system only and
  are taken to succeed. The \<open>except Exception\<close> clause logs and re-raises, so an
  exception of the body is the exception of the call.
\<close>

definition generate_images ::
  "pipeline \<Rightarrow> world \<Rightarrow> string \<Rightarrow> ImageGenerationRequest \<Rightarrow> 's callback
     \<Rightarrow> 's state \<Rightarrow> (exn + string list) \<times> 's state" where
  "generate_images pl w task_id req cb st =
     (let st1 = notify cb 10 st;
          task_output_dir = pjoin (output_dir pl) task_id;
          prompt_file = pjoin task_output_dir (task_id @ ''_prompt.txt'');
          st2 = notify cb 20 st1;
          out = (if device_count st2 > 1
                 then run_distributed_inference pl w task_id prompt_file task_output_dir req cb st2
                 else run_single_inference pl w task_id prompt_file task_output_dir req cb st2)
      in case fst out of
           Inl e \<Rightarrow> (Inl e, snd out)
         | Inr image_paths \<Rightarrow> (Inr image_paths, notify cb 100 (snd out)))"

section \<open>The worker's task (hidream\_api.py, process\_task)\<close>

text \<open>
  \<open>status_dict[task_id][...] = v\<close> and \<open>status_dict[task_id].update(...)\<close>: a
  \<open>KeyError\<close> when the task has no record.
\<close>

definition modify :: "string \<Rightarrow> (job \<Rightarrow> job) \<Rightarrow> server \<Rightarrow> exn + server" where
  "modify task_id f srv =
     (case status_dict srv task_id of
        None \<Rightarrow> Inl (KeyError task_id)
      | Some j \<Rightarrow> Inr (store ((status_dict srv)(task_id \<mapsto> f j)) srv))"

definition getenv :: "world \<Rightarrow> string \<Rightarrow> string \<Rightarrow> string" where
  "getenv w name dflt = (case os_environ w name of None \<Rightarrow> dflt | Some v \<Rightarrow> v)"

text \<open>
  The reference under which a result file is served, and the two dictionaries that
  \<open>process_task\<close> merges into the record with \<open>update\<close>.
\<close>

definition result_url :: "world \<Rightarrow> string \<Rightarrow> string" where
  "result_url w path =
     getenv w ''API_BASE_URL'' ''http://localhost:8088'' @ ''/images/'' @ basename path"

definition completed_update :: "string list \<Rightarrow> int \<Rightarrow> int \<Rightarrow> job \<Rightarrow> job" where
  "completed_update urls start_time end_time j =
     j\<lparr>status := COMPLETED, progress := 100, result_urls := urls,
       completed_at := Some end_time, processing_time := Some (end_time - start_time)\<rparr>"

definition failed_update :: "string \<Rightarrow> int \<Rightarrow> job \<Rightarrow> job" where
  "failed_update msg now j = j\<lparr>status := FAILED, error := msg, completed_at := Some now\<rparr>"

text \<open>
  The body of the \<open>try\<close>: the exception that ends it, if any, and the state it leaves.
  The state of the pipeline carries the server as the sink of the callback
  \<open>lambda p: update_progress(task_id, p)\<close>. \<open>start_time\<close> and \<open>end_time\<close> are the
  readings of the clock before the pipeline is called and when the task ends.
\<close>

definition process_task_body ::
  "pipeline \<Rightarrow> world \<Rightarrow> int \<Rightarrow> int \<Rightarrow> string \<Rightarrow> ImageGenerationRequest
     \<Rightarrow> server state \<Rightarrow> exn option \<times> server state" where
  "process_task_body pl w start_time end_time task_id req st =
     (case modify task_id (\<lambda>j. j\<lparr>status := PROCESSING\<rparr>) (sink st) of
        Inl e \<Rightarrow> (Some e, st)
      | Inr srv1 \<Rightarrow>
          (case modify task_id (\<lambda>j. j\<lparr>progress := 10\<rparr>) srv1 of
             Inl e \<Rightarrow> (Some e, st\<lparr>sink := srv1\<rparr>)
           | Inr srv2 \<Rightarrow>
               (let out = generate_images pl w task_id req (Some (update_progress task_id))
                            (st\<lparr>sink := srv2\<rparr>)
                in case fst out of
                     Inl e \<Rightarrow> (Some e, snd out)
                   | Inr result_paths \<Rightarrow>
                       (let urls = map (result_url w) result_paths
                        in case modify task_id
                                  (completed_update urls start_time end_time)
                                  (sink (snd out)) of
                             Inl e \<Rightarrow> (Some e, snd out)
                           | Inr srv3 \<Rightarrow> (None, (snd out)\<lparr>sink := srv3\<rparr>)))))"

text \<open>
  \<open>process_task\<close>: the two handlers. The result is the exception that leaves the
  function, if any: a \<open>KeyboardInterrupt\<close> is re-raised, an \<open>Exception\<close> is absorbed,
  and an exception raised inside a handler leaves with the record as it is.
\<close>

definition process_task ::
  "pipeline \<Rightarrow> world \<Rightarrow> int \<Rightarrow> int \<Rightarrow> string \<Rightarrow> ImageGenerationRequest
     \<Rightarrow> server state \<Rightarrow> exn option \<times> server state" where
  "process_task pl w start_time end_time task_id req st =
     (case process_task_body pl w start_time end_time task_id req st of
        (None, st') \<Rightarrow> (None, st')
      | (Some KeyboardInterrupt, st') \<Rightarrow>
          (case modify task_id (failed_update ''Task interrupted'' end_time) (sink st') of
             Inl e \<Rightarrow> (Some e, st')
           | Inr srv \<Rightarrow> (Some KeyboardInterrupt, st'\<lparr>sink := srv\<rparr>))
      | (Some e, st') \<Rightarrow>
          (case modify task_id (failed_update (str_exn e) end_time) (sink st') of
             Inl e' \<Rightarrow> (Some e', st')
           | Inr srv \<Rightarrow> (None, st'\<lparr>sink := srv\<rparr>)))"

text \<open>
  The life of one job: \<open>submit\<close> creates its record, and the worker, once the task is
  taken from the queue, runs \<open>process_task\<close> on it. \<open>job_records\<close> are the records
  of the task that can be observed from the submission on, oldest first; \<open>job_runs\<close>
  are the command lines that \<open>_execute_inference\<close> is called with for it, and
  \<open>job_launches\<close> the command lines launched for it.
\<close>

definition run_job ::
  "pipeline \<Rightarrow> world \<Rightarrow> int \<Rightarrow> int \<Rightarrow> int \<Rightarrow> string \<Rightarrow> ImageGenerationRequest
     \<Rightarrow> server state \<Rightarrow> exn option \<times> server state" where
  "run_job pl w now start_time end_time task_id req st =
     (case submit True task_id now req (sink st) of
        Inl e \<Rightarrow> (Some e, st)
      | Inr srv \<Rightarrow> process_task pl w start_time end_time task_id req (st\<lparr>sink := srv\<rparr>))"

definition job_records ::
  "pipeline \<Rightarrow> world \<Rightarrow> int \<Rightarrow> int \<Rightarrow> int \<Rightarrow> string \<Rightarrow> ImageGenerationRequest
     \<Rightarrow> server state \<Rightarrow> job list" where
  "job_records pl w now start_time end_time task_id req st =
     List.map_filter (\<lambda>d. d task_id)
       (drop (length (seen (sink st)))
          (seen (sink (snd (run_job pl w now start_time end_time task_id req st)))))"

definition job_runs ::
  "pipeline \<Rightarrow> world \<Rightarrow> int \<Rightarrow> int \<Rightarrow> int \<Rightarrow> string \<Rightarrow> ImageGenerationRequest
     \<Rightarrow> server state \<Rightarrow> string list list" where
  "job_runs pl w now start_time end_time task_id req st =
     drop (length (runs st))
       (runs (snd (run_job pl w now start_time end_time task_id req st)))"

definition job_launches ::
  "pipeline \<Rightarrow> world \<Rightarrow> int \<Rightarrow> int \<Rightarrow> int \<Rightarrow> string \<Rightarrow> ImageGenerationRequest
     \<Rightarrow> server state \<Rightarrow> string list list" where
  "job_launches pl w now start_time end_time task_id req st =
     drop (length (launched st))
       (launched (snd (run_job pl w now start_time end_time task_id req st)))"

section \<open>Notions used in the statements and their proofs\<close>

subsection \<open>Values forwarded by the loop\<close>

text \<open>
  \<open>ramp p m\<close> are the values that the loop forwards for \<open>m\<close> matching chunks when the
  counter starts at \<open>p\<close>; \<open>push cb vs s\<close> is the sink after the callback has been
  called with the values \<open>vs\<close> in order; \<open>recorder\<close> is the callback that keeps what
  it is sent.
\<close>

fun ramp :: "int \<Rightarrow> nat \<Rightarrow> int list" where
  "ramp p 0 = []"
| "ramp p (Suc m) = min (p + 2) 85 # ramp (min (p + 2) 85) m"

definition push :: "'s callback \<Rightarrow> int list \<Rightarrow> 's \<Rightarrow> 's" where
  "push cb vs s = (case cb of None \<Rightarrow> s | Some f \<Rightarrow> foldl (\<lambda>s v. f v s) s vs)"

definition recorder :: "int list callback" where
  "recorder = Some (\<lambda>p sent. sent @ [p])"

definition progress_lines :: "string list \<Rightarrow> nat" where
  "progress_lines outs = length (filter has_progress_keyword outs)"

definition failure_message :: "int \<Rightarrow> string" where
  "failure_message return_code = ''Inference failed with code '' @ str_int return_code"

text \<open>
  \<open>streamed w cmd env\<close> are the chunks that the runner reads from the process launched
  with \<open>cmd\<close> and \<open>env\<close>, and \<open>forwarded outs\<close> is the sequence in which chunk number
  \<open>i\<close> (from 0) among those of \<open>outs\<close> that have a keyword contributes
  \<open>min (30 + 2 * (i + 1)) 85\<close>: a counter that starts at 30 and gains 2 with each such
  chunk, up to 85.
\<close>

definition streamed :: "world \<Rightarrow> string list \<Rightarrow> (string \<rightharpoonup> string) \<Rightarrow> string list" where
  "streamed w cmd env =
     (case popen w cmd env of
        Exited outs return_code \<Rightarrow> outs
      | LaunchFailed n m filename \<Rightarrow> []
      | Interrupted outs \<Rightarrow> outs)"

definition forwarded :: "string list \<Rightarrow> int list" where
  "forwarded outs =
     map (\<lambda>i. min (30 + 2 * (int i + 1)) 85) [0..<length (filter has_progress_keyword outs)]"

subsection \<open>One call of the runner\<close>

text \<open>
  \<open>fallback_cmd\<close> is the command line of the single-device retry, and \<open>falls_back\<close>
  the condition under which a call retries on a single device.
\<close>

definition fallback_cmd :: "pipeline \<Rightarrow> string \<Rightarrow> int \<Rightarrow> string list" where
  "fallback_cmd pl out_dir num_images =
     single_cmd pl (basename out_dir) (pjoin out_dir (basename out_dir @ ''_prompt.txt''))
       out_dir (fallback_request num_images)"

definition falls_back ::
  "pipeline \<Rightarrow> world \<Rightarrow> string list \<Rightarrow> (string \<rightharpoonup> string) \<Rightarrow> 's state \<Rightarrow> bool" where
  "falls_back pl w cmd env st =
     (is_dir w (workdir st) \<and> enterable w (workdir st) (project_path pl) \<and> device_count st > 1 \<and>
      (case cmd of [] \<Rightarrow> False
       | cmd0 # _ \<Rightarrow> sublist ''torchrun'' cmd0 \<and>
           (case popen w cmd env of Exited outs rc \<Rightarrow> rc \<noteq> 0 | _ \<Rightarrow> False)))"

text \<open>
  \<open>attempt\<close> sums up a call that does not retry, made in the working directory \<open>dir\<close>:
  its result, the command lines it launches and the values it forwards.
\<close>

definition attempt ::
  "pipeline \<Rightarrow> world \<Rightarrow> string \<Rightarrow> string list \<Rightarrow> (string \<rightharpoonup> string) \<Rightarrow> string \<Rightarrow> int
     \<Rightarrow> (exn + string list) \<times> string list list \<times> int list" where
  "attempt pl w dir cmd env out_dir num_images =
     (if \<not> is_dir w dir then (Inl (OSError 2 ''No such file or directory'' None), [], [])
      else if \<not> enterable w dir (project_path pl)
        then (Inl (chdir_failure w dir (project_path pl)), [], [])
      else if cmd = [] then (Inl IndexError, [], [])
      else
        (case popen w cmd env of
           Exited outs return_code \<Rightarrow>
             (if return_code \<noteq> 0 then Inl (RuntimeError (failure_message return_code))
              else Inr (collect_images w out_dir num_images),
              [cmd], ramp 30 (progress_lines outs))
         | LaunchFailed n m filename \<Rightarrow> (Inl (OSError n m filename), [cmd], [])
         | Interrupted outs \<Rightarrow> (Inl KeyboardInterrupt, [cmd], ramp 30 (progress_lines outs))))"

text \<open>
  A summary of what any call does to the state: the working directory and the device
  count are those of the start, command lines are appended to \<open>runs\<close> and to
  \<open>launched\<close>, and the sink is reached through the callback alone.
\<close>

definition progressed :: "'s callback \<Rightarrow> 's state \<Rightarrow> 's state \<Rightarrow> bool" where
  "progressed cb st st' =
     (\<exists>rs ls vs. st' = st\<lparr>runs := runs st @ rs, launched := launched st @ ls,
                            sink := push cb vs (sink st)\<rparr>
        \<and> length ls \<le> length rs \<and> length rs \<le> 2
        \<and> (length ls \<le> 1 \<longrightarrow> sorted vs)
        \<and> (\<forall>v\<in>set vs. 30 < v \<and> v \<le> 85))"

subsection \<open>Records of a task\<close>

text \<open>
  \<open>trace_from n task_id srv\<close> are the records of the task in the dictionaries written
  after the first \<open>n\<close>; \<open>progress_after j vs\<close> is the record \<open>j\<close> after the callback
  has been called with the values \<open>vs\<close>.
\<close>

definition trace_from :: "nat \<Rightarrow> string \<Rightarrow> server \<Rightarrow> job list" where
  "trace_from n task_id srv = List.map_filter (\<lambda>d. d task_id) (drop n (seen srv))"

definition progress_after :: "job \<Rightarrow> int list \<Rightarrow> job" where
  "progress_after j vs = (if vs = [] then j else j\<lparr>progress := min (last vs) 95\<rparr>)"

text \<open>
  \<open>task_outcome\<close> is the record that \<open>process_task\<close> leaves for a result of the
  pipeline, and \<open>callbacks vs r\<close> are the values that \<open>generate_images\<close> sends when
  the runner sends \<open>vs\<close> and the result is \<open>r\<close>.
\<close>

definition task_outcome :: "world \<Rightarrow> int \<Rightarrow> int \<Rightarrow> exn + string list \<Rightarrow> job \<Rightarrow> job" where
  "task_outcome w start_time end_time r j =
     (case r of
        Inr paths \<Rightarrow> completed_update (map (result_url w) paths) start_time end_time j
      | Inl KeyboardInterrupt \<Rightarrow> failed_update ''Task interrupted'' end_time j
      | Inl e \<Rightarrow> failed_update (str_exn e) end_time j)"

definition callbacks :: "int list \<Rightarrow> exn + string list \<Rightarrow> int list" where
  "callbacks vs r = 10 # 20 # vs @ (case r of Inl e \<Rightarrow> [] | Inr paths \<Rightarrow> [100])"

subsection \<open>States of a job\<close>

text \<open>
  \<open>begin_task\<close> is the server after the first two writes of \<open>process_task\<close>.
\<close>

definition begin_task :: "string \<Rightarrow> server \<Rightarrow> server" where
  "begin_task task_id srv =
     (case status_dict srv task_id of
        None \<Rightarrow> srv
      | Some j \<Rightarrow>
          (let srv1 = store ((status_dict srv)(task_id \<mapsto> j\<lparr>status := PROCESSING\<rparr>)) srv
           in store ((status_dict srv1)(task_id \<mapsto> j\<lparr>status := PROCESSING, progress := 10\<rparr>))
                srv1))"

text \<open>The state in which \<open>run_job\<close> calls the pipeline.\<close>

definition submitted :: "string \<Rightarrow> int \<Rightarrow> ImageGenerationRequest \<Rightarrow> server \<Rightarrow> server" where
  "submitted task_id now req srv =
     (store ((status_dict srv)(task_id \<mapsto> new_job now req)) srv)
       \<lparr>task_queue := task_queue srv @ [(task_id, req)]\<rparr>"

definition admitted ::
  "string \<Rightarrow> int \<Rightarrow> ImageGenerationRequest \<Rightarrow> server state \<Rightarrow> server state" where
  "admitted task_id now req st =
     st\<lparr>sink := begin_task task_id (submitted task_id now req (sink st))\<rparr>"

text \<open>
  What a result of the runner can be: the paths that the collector returns, an
  interruption, or an exception whose text is not empty.
\<close>

definition result_ok :: "world \<Rightarrow> string \<Rightarrow> int \<Rightarrow> exn + string list \<Rightarrow> bool" where
  "result_ok w od n r =
     (case r of
        Inr paths \<Rightarrow> paths = collect_images w od n
      | Inl e \<Rightarrow> e = KeyboardInterrupt \<or> str_exn e \<noteq> [])"

subsection \<open>Command lines and results of a task\<close>

text \<open>
  The directory, the command lines and the result of the pipeline for a task, as
  \<open>generate_images\<close> computes them.
\<close>

definition task_dir :: "pipeline \<Rightarrow> string \<Rightarrow> string" where
  "task_dir pl task_id = pjoin (output_dir pl) task_id"

definition job_single_cmd :: "pipeline \<Rightarrow> string \<Rightarrow> 'r Request_scheme \<Rightarrow> string list" where
  "job_single_cmd pl task_id req =
     single_cmd pl task_id (pjoin (task_dir pl task_id) (task_id @ ''_prompt.txt''))
       (task_dir pl task_id) req"

definition job_distributed_cmd ::
  "pipeline \<Rightarrow> int \<Rightarrow> string \<Rightarrow> 'r Request_scheme \<Rightarrow> string list" where
  "job_distributed_cmd pl dc task_id req =
     distributed_cmd pl dc task_id (pjoin (task_dir pl task_id) (task_id @ ''_prompt.txt''))
       (task_dir pl task_id) req"

definition job_fallback_cmd :: "pipeline \<Rightarrow> string \<Rightarrow> 'r Request_scheme \<Rightarrow> string list" where
  "job_fallback_cmd pl task_id req =
     fallback_cmd pl (task_dir pl task_id) (num_images_per_prompt req)"

text \<open>
  The command line and the environment that \<open>generate_images\<close> chooses for a device
  count, and the directory of the project as the first call of the runner reaches it.
\<close>

definition job_cmd :: "pipeline \<Rightarrow> int \<Rightarrow> string \<Rightarrow> 'r Request_scheme \<Rightarrow> string list" where
  "job_cmd pl dc task_id req =
     (if dc > 1 then job_distributed_cmd pl dc task_id req else job_single_cmd pl task_id req)"

definition job_env :: "world \<Rightarrow> int \<Rightarrow> (string \<rightharpoonup> string)" where
  "job_env w dc = (if dc > 1 then distributed_env w dc else single_env w)"

definition project_dir :: "pipeline \<Rightarrow> 's state \<Rightarrow> string" where
  "project_dir pl st = abspath (workdir st) (project_path pl)"

definition exit_result ::
  "world \<Rightarrow> pipeline \<Rightarrow> string \<Rightarrow> 'r Request_scheme \<Rightarrow> int \<Rightarrow> exn + string list" where
  "exit_result w pl task_id req rc =
     (if rc \<noteq> 0 then Inl (RuntimeError (failure_message rc))
      else Inr (collect_images w (task_dir pl task_id) (num_images_per_prompt req)))"


subsection \<open>Concrete environments and jobs\<close>

text \<open>
  A request, an idle server with a pipeline of \<open>dc\<close> devices whose working directory
  is \<open>/srv/api\<close>, and environments: in \<open>flaky_world\<close> the multi-device run fails and
  the single-device run succeeds; in \<open>failing_world\<close> both fail; in
  \<open>unlaunchable_world\<close> the single-device process cannot be launched and in
  \<open>interrupted_world\<close> it is interrupted; in \<open>sparse_world\<close> the only directories are
  the working directory and \<open>HiDream-I1\<close> in it, which is the project path of
  \<open>relative_pipeline\<close>.
\<close>

definition example_pipeline :: pipeline where
  "example_pipeline =
     \<lparr>model_path = ''/data/HiDream-I1-Full'',
      extra_model_path = ''/data/Llama-3.1-8B-Instruct'',
      project_path = ''/workspace/HiDream-I1'', tp_size = 1, ep_size = 1,
      output_dir = ''generated_images''\<rparr>"

definition chatty_output :: "string list" where
  "chatty_output =
     [''Loading model\<newline>'', ''Step 1/2\<newline>'', [], ''SAMPLING done\<newline>'']"

definition chatty_world :: world where
  "chatty_world =
     \<lparr>popen = (\<lambda>cmd env. Exited chatty_output 0),
      is_dir = (\<lambda>p. True),
      dir_error = (\<lambda>p. (2, ''No such file or directory'')),
      listdir = (\<lambda>p. []),
      getmtime = (\<lambda>p. 0),
      os_environ = Map.empty\<rparr>"

definition example_request :: ImageGenerationRequest where
  "example_request =
     \<lparr>num_images_per_prompt = 2, resolution = ''2048x2048'', num_inference_steps = 30,
      prompt = ''A beautiful sunset'', negative_prompt = None, seed = Some 42,
      batch_size = 1, infer_type = ''Accuracy''\<rparr>"

definition idle :: "int \<Rightarrow> server state" where
  "idle dc =
     \<lparr>device_count = dc, cwd = ''srv/api'', runs = [], launched = [],
      sink = \<lparr>status_dict = Map.empty, task_queue = [], seen = []\<rparr>\<rparr>"

definition two_device_pipeline :: pipeline where
  "two_device_pipeline = example_pipeline\<lparr>tp_size := 2\<rparr>"

definition flaky_world :: world where
  "flaky_world =
     \<lparr>popen = (\<lambda>cmd env. if hd cmd = ''torchrun''
                          then Exited [''step 1\<newline>'', ''step 2\<newline>''] 1
                          else Exited [''step 1\<newline>''] 0),
      is_dir = (\<lambda>p. True),
      dir_error = (\<lambda>p. (2, ''No such file or directory'')),
      listdir = (\<lambda>p. [''a.png'', ''notes.txt'', ''b.png'']),
      getmtime = (\<lambda>p. if p = ''generated_images/img_1/b.png'' then 20 else 10),
      os_environ = Map.empty\<rparr>"

definition failing_world :: world where
  "failing_world =
     \<lparr>popen = (\<lambda>cmd env. if hd cmd = ''torchrun''
                          then Exited [''HCCL timeout\<newline>''] 1
                          else Exited [''out of memory\<newline>''] 137),
      is_dir = (\<lambda>p. True),
      dir_error = (\<lambda>p. (2, ''No such file or directory'')),
      listdir = (\<lambda>p. []),
      getmtime = (\<lambda>p. 0),
      os_environ = Map.empty\<rparr>"

definition unlaunchable_world :: world where
  "unlaunchable_world =
     failing_world
       \<lparr>popen := (\<lambda>cmd env. if hd cmd = ''torchrun''
                             then Exited [''HCCL timeout\<newline>''] 1
                             else LaunchFailed 2 ''No such file or directory''
                                    (Some ''python3''))\<rparr>"

definition interrupted_world :: world where
  "interrupted_world =
     failing_world
       \<lparr>popen := (\<lambda>cmd env. if hd cmd = ''torchrun''
                             then Exited [''HCCL timeout\<newline>''] 1
                             else Interrupted [''step 1\<newline>''])\<rparr>"

definition sparse_world :: world where
  "sparse_world =
     failing_world\<lparr>is_dir := (\<lambda>p. p = ''/srv/api'' \<or> p = ''/srv/api/HiDream-I1'')\<rparr>"

definition relative_pipeline :: pipeline where
  "relative_pipeline = two_device_pipeline\<lparr>project_path := ''HiDream-I1''\<rparr>"

text \<open>The argument that follows an option in a command line.\<close>

fun option_value :: "string \<Rightarrow> string list \<Rightarrow> string option" where
  "option_value name (a # b # rest) =
     (if a = name then Some b else option_value name (b # rest))"
| "option_value name rest = None"

section \<open>Properties of the topology planner\<close>

lemma planner_default_branch:
  assumes "0 < d"
  shows "calculate_distributed_config d =
           (if d = 1 then Inr (1, 1) else if d = 2 then Inr (2, 1)
            else if d = 4 then Inr (4, 1) else if d = 8 then Inr (4, 2)
            else Inr (min 4 d, d div min 4 d))"
proof -
  have "min 4 d \<noteq> 0" using assms by simp
  then show ?thesis
    by (simp add: calculate_distributed_config_def floordiv_def Let_def)
qed

lemma planner_product_bound:
  fixes d :: int
  assumes "0 < d"
  shows "min 4 d * (d div min 4 d) \<le> d"
proof (cases "d \<le> 4")
  case True
  then show ?thesis using assms by (simp add: min_def)
next
  case False
  then have "min 4 d = 4" by simp
  moreover have "4 * (d div 4) \<le> d" by presburger
  ultimately show ?thesis by simp
qed

lemma planner_ep_positive:
  fixes d :: int
  assumes "0 < d"
  shows "1 \<le> d div min 4 d"
proof (cases "d \<le> 4")
  case True
  then show ?thesis using assms by (simp add: min_def)
next
  case False
  then have "min 4 d = 4" by simp
  moreover have "1 \<le> d div 4" using False by presburger
  ultimately show ?thesis by simp
qed

text \<open>
  Claim C6. For every positive device count \<open>d\<close> the planner returns (it does not raise) a
  pair \<open>(tp, ep)\<close> with \<open>tp \<ge> 1\<close>, \<open>ep \<ge> 1\<close> and \<open>tp * ep \<le> d\<close>; the pair is \<open>(1,1)\<close>,
  \<open>(2,1)\<close>, \<open>(4,1)\<close>, \<open>(4,2)\<close> for \<open>d = 1, 2, 4, 8\<close> and \<open>(min 4 d, d div min 4 d)\<close>
  otherwise. Being a HOL function of \<open>d\<close> alone, the result is determined by \<open>d\<close> and
  nothing else is read or written.
\<close>

theorem planner_contract:
  assumes "0 < d"
  shows "\<exists>tp ep. calculate_distributed_config d = Inr (tp, ep)
           \<and> 1 \<le> tp \<and> 1 \<le> ep \<and> tp * ep \<le> d
           \<and> (d = 1 \<longrightarrow> (tp, ep) = (1, 1))
           \<and> (d = 2 \<longrightarrow> (tp, ep) = (2, 1))
           \<and> (d = 4 \<longrightarrow> (tp, ep) = (4, 1))
           \<and> (d = 8 \<longrightarrow> (tp, ep) = (4, 2))
           \<and> (d \<notin> {1, 2, 4, 8} \<longrightarrow> tp = min 4 d \<and> ep = d div tp)"
proof (cases "d \<in> {1, 2, 4, 8}")
  case True
  then show ?thesis
    by (auto simp: calculate_distributed_config_def)
next
  case False
  then have eq: "calculate_distributed_config d = Inr (min 4 d, d div min 4 d)"
    using planner_default_branch [OF assms] by simp
  have "1 \<le> min 4 d" using assms by simp
  moreover note planner_ep_positive [OF assms] planner_product_bound [OF assms]
  ultimately show ?thesis using eq False by simp
qed

theorem planner_contract_witness:
  "(0::int) < 6 \<and> calculate_distributed_config 6 = Inr (4, 1)
     \<and> calculate_distributed_config 8 = Inr (4, 2)"
proof -
  have pos: "(0::int) < 6" by simp
  from planner_contract [OF pos]
  obtain tp ep where "calculate_distributed_config 6 = Inr (tp, ep)"
    and "tp = min 4 6 \<and> ep = 6 div tp"
    by auto
  then have "calculate_distributed_config 6 = Inr (4, 1)" by simp
  moreover have "calculate_distributed_config 8 = Inr (4, 2)"
    by (simp add: calculate_distributed_config_def)
  ultimately show ?thesis by simp
qed

section \<open>The runner: what the loop forwards\<close>

lemma ramp_closed: "ramp p m = map (\<lambda>i. min (p + 2 * (int i + 1)) 85) [0..<m]"
proof (induction m arbitrary: p)
  case 0
  then show ?case by simp
next
  case (Suc m)
  have "map (\<lambda>i. min (p + 2 * (int i + 1)) 85) [0..<Suc m]
          = min (p + 2) 85 # map (\<lambda>i. min (p + 2 * (int (Suc i) + 1)) 85) [0..<m]"
    by (simp only: map_upt_Suc) simp
  also have "map (\<lambda>i. min (p + 2 * (int (Suc i) + 1)) 85) [0..<m]
          = map (\<lambda>i. min (min (p + 2) 85 + 2 * (int i + 1)) 85) [0..<m]"
    by (rule map_cong) auto
  finally show ?case using Suc.IH [of "min (p + 2) 85"] by simp
qed

lemma ramp_bounds: "v \<in> set (ramp p m) \<Longrightarrow> min (p + 2) 85 \<le> v \<and> v \<le> 85"
proof (induction m arbitrary: p)
  case 0
  then show ?case by simp
next
  case (Suc m)
  from Suc.prems have "v = min (p + 2) 85 \<or> v \<in> set (ramp (min (p + 2) 85) m)"
    by simp
  then show ?case
  proof
    assume "v = min (p + 2) 85"
    then show ?thesis by simp
  next
    assume "v \<in> set (ramp (min (p + 2) 85) m)"
    from Suc.IH [OF this] show ?thesis by (auto simp: min_def split: if_splits)
  qed
qed

lemma ramp_30_bounds: "v \<in> set (ramp 30 m) \<Longrightarrow> 30 < v \<and> v \<le> 85"
  using ramp_bounds [of v 30 m] by simp

lemma ramp_sorted: "sorted (ramp p m)"
proof (induction m arbitrary: p)
  case 0
  then show ?case by simp
next
  case (Suc m)
  have "min (p + 2) 85 \<le> v" if "v \<in> set (ramp (min (p + 2) 85) m)" for v
    using ramp_bounds [OF that] by (auto simp: min_def split: if_splits)
  then show ?case using Suc.IH by simp
qed

subsection \<open>Stripping a chunk does not change whether it has a keyword\<close>

lemma keyword_no_space: "k \<in> set progress_keywords \<Longrightarrow> c \<in> set k \<Longrightarrow> \<not> isspace c"
  by (auto simp: progress_keywords_def isspace_def)

lemma lower_char_space: "isspace (lower_char c) = isspace c"
  by (simp add: lower_char_def isspace_def split: option.splits)

lemma sublist_dropWhile_iff:
  assumes "\<forall>c\<in>set k. \<not> P c" and "k \<noteq> []"
  shows "sublist k (dropWhile P t) = sublist k t"
proof (induction t)
  case Nil
  then show ?case by simp
next
  case (Cons c cs)
  show ?case
  proof (cases "P c")
    case True
    obtain k0 k' where k: "k = k0 # k'" using assms(2) by (cases k) auto
    with assms(1) True have "k0 \<noteq> c" by auto
    then have "\<not> prefix k (c # cs)" by (simp add: k)
    with Cons True show ?thesis by (simp add: sublist_Cons_right)
  next
    case False
    then show ?thesis by simp
  qed
qed

lemma sublist_strip_iff:
  assumes "\<forall>c\<in>set k. \<not> isspace c" and "k \<noteq> []"
  shows "sublist k (strip t) = sublist k t"
proof -
  have rk: "\<forall>c\<in>set (rev k). \<not> isspace c" "rev k \<noteq> []" using assms by auto
  have "sublist k (strip t) = sublist (rev k) (dropWhile isspace (rev (dropWhile isspace t)))"
    by (simp add: strip_def sublist_rev_right)
  also have "\<dots> = sublist (rev k) (rev (dropWhile isspace t))"
    by (rule sublist_dropWhile_iff [OF rk])
  also have "\<dots> = sublist k (dropWhile isspace t)"
    by (simp add: sublist_rev_right)
  also have "\<dots> = sublist k t"
    by (rule sublist_dropWhile_iff [OF assms])
  finally show ?thesis .
qed

lemma lower_strip: "lower (strip s) = strip (lower s)"
proof -
  have c: "isspace \<circ> lower_char = isspace"
    by (rule ext) (simp add: lower_char_space)
  show ?thesis
    by (simp add: lower_def strip_def rev_map dropWhile_map c)
qed

lemma has_progress_keyword_strip: "has_progress_keyword (strip s) = has_progress_keyword s"
proof -
  have "sublist k (lower (strip s)) = sublist k (lower s)" if "k \<in> set progress_keywords" for k
  proof -
    have "\<forall>c\<in>set k. \<not> isspace c" using keyword_no_space [OF that] by blast
    moreover have "k \<noteq> []" using that by (auto simp: progress_keywords_def)
    ultimately show ?thesis by (simp add: lower_strip sublist_strip_iff)
  qed
  then show ?thesis
    by (auto simp: has_progress_keyword_def list_ex_iff)
qed

lemma has_progress_keyword_Nil: "\<not> has_progress_keyword []"
  by (simp add: has_progress_keyword_def progress_keywords_def lower_def)

lemma loop_test_iff:
  "(x \<noteq> [] \<and> has_progress_keyword (strip x)) = has_progress_keyword x"
  using has_progress_keyword_Nil by (auto simp: has_progress_keyword_strip)

subsection \<open>The loop as a sequence of callback calls\<close>

lemma push_Nil [simp]: "push cb [] s = s"
  by (simp add: push_def split: option.splits)

lemma push_append: "push cb (us @ vs) s = push cb vs (push cb us s)"
  by (simp add: push_def split: option.splits)

lemma push_recorder: "push recorder vs s = s @ vs"
  by (induction vs arbitrary: s) (simp_all add: push_def recorder_def)

lemma notify_push: "notify cb v st = st\<lparr>sink := push cb [v] (sink st)\<rparr>"
  by (simp add: notify_def push_def split: option.splits)

lemma read_output_push:
  "read_output cb outs p st = st\<lparr>sink := push cb (ramp p (progress_lines outs)) (sink st)\<rparr>"
proof (induction outs arbitrary: p st)
  case Nil
  then show ?case by (simp add: progress_lines_def)
next
  case (Cons x rest)
  note e = loop_test_iff [of x]
  show ?case
  proof (cases "has_progress_keyword x")
    case True
    then have "x \<noteq> []" "has_progress_keyword (strip x)" using e by auto
    then show ?thesis using True Cons [of "min (p + 2) 85" "notify cb (min (p + 2) 85) st"]
      by (simp add: progress_lines_def Let_def notify_push
            push_append [of cb "[_]", simplified, symmetric])
  next
    case False
    then have "\<not> (x \<noteq> [] \<and> has_progress_keyword (strip x))" using e by simp
    then show ?thesis using False Cons [of p st]
      by (auto simp: progress_lines_def)
  qed
qed

section \<open>The runner: one call of \_execute\_inference\<close>

subsection \<open>Working directories\<close>

lemma workdir_fields [simp]:
  "workdir (st\<lparr>runs := r\<rparr>) = workdir st"
  "workdir (st\<lparr>launched := l\<rparr>) = workdir st"
  "workdir (st\<lparr>sink := s\<rparr>) = workdir st"
  "workdir (st\<lparr>device_count := d\<rparr>) = workdir st"
  "workdir (st\<lparr>cwd := c\<rparr>) = CHR ''/'' # c"
  by (simp_all add: workdir_def)

lemma abspath_absolute [simp]: "abspath dir (CHR ''/'' # p) = CHR ''/'' # p"
  by (simp add: abspath_def)

lemma abspath_to_workdir [simp]:
  "abspath dir (workdir st) = workdir st"
  "workdir st \<noteq> []"
  "tl (workdir st) = cwd st"
  by (simp_all add: workdir_def)

lemma abspath_workdir: "CHR ''/'' # tl (abspath (workdir st) p) = abspath (workdir st) p"
  by (cases p) (auto simp: abspath_def workdir_def)

subsection \<open>The two kinds of call\<close>

text \<open>
  A call that does not retry is its \<open>attempt\<close>. A call that retries is the failed run
  followed by the \<open>attempt\<close> of the retry, which is made from the project directory.
\<close>

lemma execute_inference_no_fallback:
  assumes "\<not> falls_back pl w cmd env st"
  shows "execute_inference pl w cmd env cb od n st =
           (case attempt pl w (workdir st) cmd env od n of
              (r, ls, vs) \<Rightarrow>
                (r, st\<lparr>runs := runs st @ [cmd], launched := launched st @ ls,
                       sink := push cb vs (sink st)\<rparr>))"
  using assms
  by (subst execute_inference.simps)
     (auto simp: falls_back_def attempt_def enterable_def getcwd_def chdir_def finally_chdir_def
        read_output_push Let_def workdir_def failure_message_def
        split: list.splits proc_outcome.splits)

lemma fallback_cmd_not_Nil [simp]: "fallback_cmd pl od n \<noteq> []"
  by (simp add: fallback_cmd_def single_cmd_def)

lemma fallback_cmd_no_torchrun: "fallback_cmd pl od n = f0 # fs \<Longrightarrow> \<not> sublist ''torchrun'' f0"
  by (auto simp: fallback_cmd_def single_cmd_def sublist_Cons_right)

lemma execute_inference_fallback:
  assumes "is_dir w (workdir st)" and "enterable w (workdir st) (project_path pl)"
    and "popen w (c0 # cs) env = Exited outs rc" and "rc \<noteq> 0"
    and "device_count st > 1" and "sublist ''torchrun'' c0"
  shows "execute_inference pl w (c0 # cs) env cb od n st =
           (case attempt pl w (abspath (workdir st) (project_path pl)) (fallback_cmd pl od n)
                   (single_env w) od n of
              (r, ls, vs) \<Rightarrow>
                (r, st\<lparr>runs := runs st @ [c0 # cs, fallback_cmd pl od n],
                       launched := launched st @ (c0 # cs) # ls,
                       sink := push cb (ramp 30 (progress_lines outs) @ vs) (sink st)\<rparr>))"
proof -
  define st1 where "st1 = st\<lparr>runs := runs st @ [c0 # cs],
      cwd := tl (abspath (workdir st) (project_path pl)),
      launched := launched st @ [c0 # cs],
      sink := push cb (ramp 30 (progress_lines outs)) (sink st), device_count := 1\<rparr>"
  define out where
    "out = execute_inference pl w (fallback_cmd pl od n) (single_env w) cb od n st1"
  have step: "execute_inference pl w (c0 # cs) env cb od n st
                = (fst out, (snd out)\<lparr>device_count := device_count st, cwd := cwd st\<rparr>)"
    using assms unfolding out_def st1_def
    by (subst execute_inference.simps)
       (simp add: getcwd_def chdir_def finally_chdir_def read_output_push Let_def
          fallback_cmd_def fallback_request_def enterable_def)
  have w1: "workdir st1 = abspath (workdir st) (project_path pl)"
    by (simp add: st1_def abspath_workdir)
  have nf: "\<not> falls_back pl w (fallback_cmd pl od n) (single_env w) st1"
    by (simp add: falls_back_def st1_def)
  show ?thesis
    unfolding step out_def execute_inference_no_fallback [OF nf] w1
    by (simp add: st1_def push_append split: prod.splits)
qed

subsection \<open>What any call does\<close>

lemma str_exn_OSError_not_Nil [simp]: "str_exn (OSError k m f) \<noteq> []"
  by (cases f) simp_all

lemma ramp_forwarded: "ramp 30 (progress_lines outs) = forwarded outs"
  by (simp add: ramp_closed progress_lines_def forwarded_def)

lemma forwarded_sorted: "sorted (forwarded outs)"
  using ramp_sorted [of 30 "progress_lines outs"] by (simp add: ramp_forwarded)

lemma forwarded_bounds: "v \<in> set (forwarded outs) \<Longrightarrow> 30 < v \<and> v \<le> 85"
  using ramp_30_bounds [of v "progress_lines outs"] by (simp add: ramp_forwarded)

lemma forwarded_Nil [simp]: "forwarded [] = []"
  by (simp add: forwarded_def)

lemma attempt_facts:
  assumes "attempt pl w dir cmd env od n = (r, ls, vs)"
  shows "ls = [] \<and> vs = [] \<or> ls = [cmd] \<and> vs = forwarded (streamed w cmd env)"
    and "result_ok w od n r"
  using assms
  by (auto simp: attempt_def streamed_def result_ok_def failure_message_def chdir_failure_def
        ramp_forwarded split: if_splits proc_outcome.splits)

lemma execute_inference_shape:
  "\<exists>rs ls. snd (execute_inference pl w cmd env cb od n st)
             = st\<lparr>runs := runs st @ rs, launched := launched st @ ls,
                  sink := push cb (concat (map (\<lambda>(c, e). forwarded (streamed w c e))
                                            (zip ls [env, single_env w]))) (sink st)\<rparr>
           \<and> (rs = [cmd] \<or> rs = [cmd, fallback_cmd pl od n]) \<and> length ls \<le> length rs"
proof (cases "falls_back pl w cmd env st")
  case False
  obtain r ls vs where a: "attempt pl w (workdir st) cmd env od n = (r, ls, vs)"
    by (cases "attempt pl w (workdir st) cmd env od n") auto
  from attempt_facts(1) [OF a]
  have "vs = concat (map (\<lambda>(c, e). forwarded (streamed w c e)) (zip ls [env, single_env w]))"
    and "length ls \<le> 1"
    by auto
  then show ?thesis
    unfolding execute_inference_no_fallback [OF False] a
    by (intro exI [of _ "[cmd]"] exI [of _ ls]) simp
next
  case True
  then obtain c0 cs outs rc where cmd: "cmd = c0 # cs"
    and dirs: "is_dir w (workdir st)" "enterable w (workdir st) (project_path pl)"
    and run: "popen w (c0 # cs) env = Exited outs rc" "rc \<noteq> 0"
    and multi: "device_count st > 1" "sublist ''torchrun'' c0"
    by (auto simp: falls_back_def split: list.splits proc_outcome.splits)
  obtain r ls vs where a: "attempt pl w (abspath (workdir st) (project_path pl))
      (fallback_cmd pl od n) (single_env w) od n = (r, ls, vs)"
    by (cases "attempt pl w (abspath (workdir st) (project_path pl))
      (fallback_cmd pl od n) (single_env w) od n") auto
  have s: "streamed w (c0 # cs) env = outs"
    by (simp add: streamed_def run)
  from attempt_facts(1) [OF a]
  have "ramp 30 (progress_lines outs) @ vs
          = concat (map (\<lambda>(c, e). forwarded (streamed w c e))
                      (zip ((c0 # cs) # ls) [env, single_env w]))"
    and "length ls \<le> 1"
    by (auto simp: s ramp_forwarded)
  then show ?thesis
    unfolding cmd execute_inference_fallback [OF dirs run multi] a
    by (intro exI [of _ "[c0 # cs, fallback_cmd pl od n]"] exI [of _ "(c0 # cs) # ls"]) simp
qed

lemma blocks_bounds:
  "v \<in> set (concat (map (\<lambda>(c, e). forwarded (streamed w c e)) procs)) \<Longrightarrow> 30 < v \<and> v \<le> 85"
  by (auto dest: forwarded_bounds)

lemma blocks_sorted:
  "length ls \<le> 1 \<Longrightarrow>
   sorted (concat (map (\<lambda>(c, e). forwarded (streamed w c e)) (zip ls es)))"
  by (cases ls; cases es) (simp_all add: forwarded_sorted)

lemma execute_inference_progressed:
  "progressed cb st (snd (execute_inference pl w cmd env cb od n st))"
proof -
  from execute_inference_shape [of pl w cmd env cb od n st]
  obtain rs ls where
    sh: "snd (execute_inference pl w cmd env cb od n st)
             = st\<lparr>runs := runs st @ rs, launched := launched st @ ls,
                  sink := push cb (concat (map (\<lambda>(c, e). forwarded (streamed w c e))
                                            (zip ls [env, single_env w]))) (sink st)\<rparr>"
    and rs: "rs = [cmd] \<or> rs = [cmd, fallback_cmd pl od n]"
    and ls: "length ls \<le> length rs"
    by blast
  have "length rs \<le> 2" using rs by auto
  with ls show ?thesis
    unfolding progressed_def
    using sh blocks_bounds [of _ w "zip ls [env, single_env w]"]
      blocks_sorted [of ls w "[env, single_env w]"]
    by blast
qed

section \<open>Facts about the concrete environments\<close>

lemma chatty_progress_lines:
  "filter has_progress_keyword chatty_output = [''Step 1/2\<newline>'', ''SAMPLING done\<newline>'']"
  by (simp add: chatty_output_def has_progress_keyword_def progress_keywords_def lower_def
        lower_char_def sublist_Cons_right)

section \<open>Properties of the runner\<close>

text \<open>
  Claim C7. Take any call of the runner, whatever its outcome, and let \<open>procs\<close> be the
  processes that it launches, each with its command line and its environment: the first
  is launched with the environment given to the call, and the second, if there is one, is
  the single-device retry. For each launched process the runner forwards \<open>forwarded\<close>
  of the chunks it reads from it: a chunk counts when it contains one of \<open>step\<close>,
  \<open>sampling\<close>, \<open>inference\<close>, letter case ignored; the counter starts at 30 and the
  value forwarded for the counting chunk number \<open>i\<close> (from 0) is
  \<open>min (30 + 2 * (i + 1)) 85\<close>, two more for each counting chunk, capped at 85. What
  the call forwards is these sequences one after the other, in the order of the launches.
  The sequence of each process never decreases, every forwarded value is above 30 and at
  most 85, and what a call that launches at most one process forwards never decreases.
\<close>

theorem runner_forwards_progress:
  assumes "st' = snd (execute_inference pl w cmd env recorder out_dir n (st\<lparr>sink := []\<rparr>))"
    and "procs = zip (drop (length (launched st)) (launched st')) [env, single_env w]"
  shows "sink st' = concat (map (\<lambda>(c, e). forwarded (streamed w c e)) procs)
       \<and> (\<forall>(c, e) \<in> set procs. sorted (forwarded (streamed w c e)))
       \<and> (\<forall>v \<in> set (sink st'). 30 < v \<and> v \<le> 85)
       \<and> (length procs \<le> 1 \<longrightarrow> sorted (sink st'))"
proof -
  from execute_inference_shape [of pl w cmd env recorder out_dir n "st\<lparr>sink := []\<rparr>"]
  obtain rs ls where
    sh: "st' = st\<lparr>runs := runs st @ rs, launched := launched st @ ls,
                   sink := concat (map (\<lambda>(c, e). forwarded (streamed w c e))
                                     (zip ls [env, single_env w]))\<rparr>"
    and len: "length ls \<le> length rs" "rs = [cmd] \<or> rs = [cmd, fallback_cmd pl out_dir n]"
    unfolding assms(1) by (auto simp: push_recorder)
  have procs: "procs = zip ls [env, single_env w]"
    unfolding assms(2) sh by simp
  have sent: "sink st' = concat (map (\<lambda>(c, e). forwarded (streamed w c e)) procs)"
    unfolding procs sh by simp
  have "length ls \<le> 2" using len by auto
  then have l: "length procs = length ls"
    unfolding procs by simp
  have each: "\<forall>(c, e) \<in> set procs. sorted (forwarded (streamed w c e))"
    by (simp add: forwarded_sorted split: prod.splits)
  have bounds: "\<forall>v \<in> set (sink st'). 30 < v \<and> v \<le> 85"
    unfolding sent using blocks_bounds [of _ w procs] by blast
  have whole: "sorted (sink st')" if "length procs \<le> 1"
    unfolding sent procs using that l by (intro blocks_sorted) simp
  show ?thesis using sent each bounds whole by blast
qed


section \<open>The records of a task while it runs\<close>

lemma seen_store [simp]: "seen (store d srv) = seen srv @ [d]"
  by (simp add: store_def)

lemma status_dict_store [simp]: "status_dict (store d srv) = d"
  by (simp add: store_def)

lemma task_queue_store [simp]: "task_queue (store d srv) = task_queue srv"
  by (simp add: store_def)

lemma trace_from_store:
  "n \<le> length (seen srv) \<Longrightarrow>
   trace_from n task_id (store d srv)
     = trace_from n task_id srv @ (case d task_id of None \<Rightarrow> [] | Some j \<Rightarrow> [j])"
  by (simp add: trace_from_def map_filter_def split: option.splits)

lemma push_update_progress:
  assumes "status_dict srv task_id = Some j" and "n \<le> length (seen srv)"
  shows "status_dict (push (Some (update_progress task_id)) vs srv) task_id
           = Some (progress_after j vs)
       \<and> trace_from n task_id (push (Some (update_progress task_id)) vs srv)
           = trace_from n task_id srv @ map (\<lambda>v. j\<lparr>progress := min v 95\<rparr>) vs
       \<and> n \<le> length (seen (push (Some (update_progress task_id)) vs srv))"
  using assms
proof (induction vs arbitrary: srv j rule: rev_induct)
  case Nil
  then show ?case by (simp add: progress_after_def)
next
  case (snoc v vs)
  let ?srv = "push (Some (update_progress task_id)) vs srv"
  from snoc.IH [OF snoc.prems]
  have a: "status_dict ?srv task_id = Some (progress_after j vs)"
    and b: "trace_from n task_id ?srv
              = trace_from n task_id srv @ map (\<lambda>v. j\<lparr>progress := min v 95\<rparr>) vs"
    and c: "n \<le> length (seen ?srv)"
    by auto
  have step: "push (Some (update_progress task_id)) (vs @ [v]) srv
                = update_progress task_id v ?srv"
    by (simp add: push_def)
  have upd: "update_progress task_id v ?srv
      = store ((status_dict ?srv)(task_id \<mapsto> j\<lparr>progress := min v 95\<rparr>)) ?srv"
    using a by (simp add: update_progress_def progress_after_def)
  show ?case
    unfolding step upd using b c
    by (simp add: trace_from_store progress_after_def)
qed

lemma generate_images_shape:
  "\<exists>rs ls vs. snd (generate_images pl w task_id req cb st)
             = st\<lparr>runs := runs st @ rs, launched := launched st @ ls,
                  sink := push cb (10 # 20 # vs @
                            (case fst (generate_images pl w task_id req cb st) of
                               Inl e \<Rightarrow> [] | Inr paths \<Rightarrow> [100])) (sink st)\<rparr>
         \<and> length ls \<le> length rs \<and> length rs \<le> 2
         \<and> (length ls \<le> 1 \<longrightarrow> sorted vs)
         \<and> (\<forall>v\<in>set vs. 30 < v \<and> v \<le> 85)"
proof -
  define st2 where "st2 = st\<lparr>sink := push cb [10, 20] (sink st)\<rparr>"
  define od where "od = pjoin (output_dir pl) task_id"
  define pf where "pf = pjoin od (task_id @ ''_prompt.txt'')"
  define out where
    "out = (if device_count st2 > 1
            then run_distributed_inference pl w task_id pf od req cb st2
            else run_single_inference pl w task_id pf od req cb st2)"
  have st2: "notify cb 20 (notify cb 10 st) = st2"
    by (simp add: st2_def notify_push push_append [symmetric])
  have gi: "generate_images pl w task_id req cb st
              = (case fst out of Inl e \<Rightarrow> (Inl e, snd out)
                 | Inr paths \<Rightarrow> (Inr paths, notify cb 100 (snd out)))"
    unfolding generate_images_def Let_def st2 out_def od_def pf_def by simp
  have "progressed cb st2 (snd out)"
    unfolding out_def run_distributed_inference_def run_single_inference_def
    by (simp add: execute_inference_progressed)
  then obtain rs ls vs where
    shape: "snd out = st2\<lparr>runs := runs st2 @ rs, launched := launched st2 @ ls,
                         sink := push cb vs (sink st2)\<rparr>"
    and rs: "length ls \<le> length rs" "length rs \<le> 2"
    and srt: "length ls \<le> 1 \<longrightarrow> sorted vs" and bnd: "\<forall>v\<in>set vs. 30 < v \<and> v \<le> 85"
    unfolding progressed_def by blast
  have "snd (generate_images pl w task_id req cb st)
             = st\<lparr>runs := runs st @ rs, launched := launched st @ ls,
                  sink := push cb (10 # 20 # vs @
                            (case fst (generate_images pl w task_id req cb st) of
                               Inl e \<Rightarrow> [] | Inr paths \<Rightarrow> [100])) (sink st)\<rparr>"
    unfolding gi shape st2_def
    by (cases "fst out")
       (simp_all add: notify_push push_append [symmetric])
  with rs srt bnd show ?thesis by blast
qed

section \<open>The records of a job from submission to its end\<close>

lemma modify_present:
  "status_dict srv task_id = Some j \<Longrightarrow>
   modify task_id f srv = Inr (store ((status_dict srv)(task_id \<mapsto> f j)) srv)"
  by (simp add: modify_def)

lemma process_task_finish:
  assumes "status_dict (sink st') task_id = Some jp"
  shows "snd (case (case r of Inl e \<Rightarrow> (Some e, st')
                          | Inr result_paths \<Rightarrow>
                              (let urls = map (result_url w) result_paths
                               in case modify task_id (completed_update urls s e) (sink st') of
                                    Inl e \<Rightarrow> (Some e, st')
                                  | Inr srv3 \<Rightarrow> (None, st'\<lparr>sink := srv3\<rparr>))) of
                    (None, st'') \<Rightarrow> (None, st'')
                  | (Some KeyboardInterrupt, st'') \<Rightarrow>
                      (case modify task_id (failed_update ''Task interrupted'' e) (sink st'') of
                         Inl x \<Rightarrow> (Some x, st'')
                       | Inr srv \<Rightarrow> (Some KeyboardInterrupt, st''\<lparr>sink := srv\<rparr>))
                  | (Some x, st'') \<Rightarrow>
                      (case modify task_id (failed_update (str_exn x) e) (sink st'') of
                         Inl e' \<Rightarrow> (Some e', st'')
                       | Inr srv \<Rightarrow> (None, st''\<lparr>sink := srv\<rparr>)))
           = st'\<lparr>sink := store ((status_dict (sink st'))(task_id \<mapsto> task_outcome w s e r jp))
                           (sink st')\<rparr>"
proof (cases r)
  case (Inl x)
  then show ?thesis
    using assms by (cases x) (simp_all add: modify_present task_outcome_def)
next
  case (Inr paths)
  then show ?thesis
    using assms by (simp add: modify_present task_outcome_def Let_def)
qed

lemma process_task_records:
  assumes rec: "status_dict (sink st) task_id = Some j0"
    and n: "n \<le> length (seen (sink st))"
    and out: "out = generate_images pl w task_id req (Some (update_progress task_id))
                      (st\<lparr>sink := begin_task task_id (sink st)\<rparr>)"
    and sk: "sink (snd out)
               = push (Some (update_progress task_id)) vs (begin_task task_id (sink st))"
    and j1: "j1 = j0\<lparr>status := PROCESSING, progress := 10\<rparr>"
  shows "snd (process_task pl w s e task_id req st)
           = (snd out)\<lparr>sink := store ((status_dict (sink (snd out)))
                                   (task_id \<mapsto> task_outcome w s e (fst out) (progress_after j1 vs)))
                                (sink (snd out))\<rparr>"
    and "trace_from n task_id (sink (snd (process_task pl w s e task_id req st)))
           = trace_from n task_id (sink st) @ [j0\<lparr>status := PROCESSING\<rparr>, j1]
             @ map (\<lambda>v. j1\<lparr>progress := min v 95\<rparr>) vs
             @ [task_outcome w s e (fst out) (progress_after j1 vs)]"
proof -
  let ?cb = "Some (update_progress task_id)"
  define srv1 where
    "srv1 = store ((status_dict (sink st))(task_id \<mapsto> j0\<lparr>status := PROCESSING\<rparr>)) (sink st)"
  define srv2 where "srv2 = store ((status_dict srv1)(task_id \<mapsto> j1)) srv1"
  have bt: "begin_task task_id (sink st) = srv2"
    by (simp add: begin_task_def rec srv2_def srv1_def j1 Let_def)
  have m1: "modify task_id (\<lambda>j. j\<lparr>status := PROCESSING\<rparr>) (sink st) = Inr srv1"
    by (simp add: modify_present [OF rec] srv1_def)
  have r1: "status_dict srv1 task_id = Some (j0\<lparr>status := PROCESSING\<rparr>)"
    by (simp add: srv1_def)
  have m2: "modify task_id (\<lambda>j. j\<lparr>progress := 10\<rparr>) srv1 = Inr srv2"
    by (simp add: modify_present [OF r1] srv2_def j1)
  have r2: "status_dict srv2 task_id = Some j1"
    by (simp add: srv2_def)
  have n2: "n \<le> length (seen srv2)"
    using n by (simp add: srv2_def srv1_def)
  have t2: "trace_from n task_id srv2
              = trace_from n task_id (sink st) @ [j0\<lparr>status := PROCESSING\<rparr>, j1]"
    using n by (simp add: srv2_def srv1_def trace_from_store)
  from push_update_progress [OF r2 n2, of vs]
  have rp: "status_dict (sink (snd out)) task_id = Some (progress_after j1 vs)"
    and tp: "trace_from n task_id (sink (snd out))
               = trace_from n task_id srv2 @ map (\<lambda>v. j1\<lparr>progress := min v 95\<rparr>) vs"
    and np: "n \<le> length (seen (sink (snd out)))"
    unfolding sk bt by simp_all
  show pt: "snd (process_task pl w s e task_id req st)
      = (snd out)\<lparr>sink := store ((status_dict (sink (snd out)))
                                (task_id \<mapsto> task_outcome w s e (fst out) (progress_after j1 vs)))
                             (sink (snd out))\<rparr>"
    unfolding process_task_def process_task_body_def m1 m2 sum.case Let_def
      bt [symmetric] out [symmetric]
    by (rule process_task_finish [OF rp, unfolded Let_def])
  show "trace_from n task_id (sink (snd (process_task pl w s e task_id req st)))
      = trace_from n task_id (sink st) @ [j0\<lparr>status := PROCESSING\<rparr>, j1]
        @ map (\<lambda>v. j1\<lparr>progress := min v 95\<rparr>) vs
        @ [task_outcome w s e (fst out) (progress_after j1 vs)]"
    unfolding pt using np by (simp add: trace_from_store tp t2)
qed

lemma admitted_fields [simp]:
  "device_count (admitted task_id now req st) = device_count st"
  "cwd (admitted task_id now req st) = cwd st"
  "launched (admitted task_id now req st) = launched st"
  "runs (admitted task_id now req st) = runs st"
  "workdir (admitted task_id now req st) = workdir st"
  by (simp_all add: admitted_def)

lemma run_job_records:
  assumes out: "out = generate_images pl w task_id req (Some (update_progress task_id))
                        (admitted task_id now req st)"
    and sk: "sink (snd out) = push (Some (update_progress task_id)) vs
                                (sink (admitted task_id now req st))"
    and j1: "j1 = (new_job now req)\<lparr>status := PROCESSING, progress := 10\<rparr>"
  shows "job_records pl w now s e task_id req st
           = [new_job now req, (new_job now req)\<lparr>status := PROCESSING\<rparr>, j1]
             @ map (\<lambda>v. j1\<lparr>progress := min v 95\<rparr>) vs
             @ [task_outcome w s e (fst out) (progress_after j1 vs)]"
    and "job_launches pl w now s e task_id req st
           = drop (length (launched st)) (launched (snd out))"
    and "job_runs pl w now s e task_id req st
           = drop (length (runs st)) (runs (snd out))"
proof -
  let ?srv = "submitted task_id now req (sink st)"
  let ?st = "st\<lparr>sink := ?srv\<rparr>"
  let ?n = "length (seen (sink st))"
  have sub: "submit True task_id now req (sink st) = Inr ?srv"
    by (simp add: submit_def submitted_def Let_def)
  have rj: "run_job pl w now s e task_id req st = process_task pl w s e task_id req ?st"
    by (simp add: run_job_def sub)
  have rec: "status_dict (sink ?st) task_id = Some (new_job now req)"
    by (simp add: submitted_def)
  have n: "?n \<le> length (seen (sink ?st))"
    by (simp add: submitted_def)
  have t0: "trace_from ?n task_id (sink ?st) = [new_job now req]"
    by (simp add: trace_from_def submitted_def map_filter_def)
  have out': "out = generate_images pl w task_id req (Some (update_progress task_id))
                      (?st\<lparr>sink := begin_task task_id (sink ?st)\<rparr>)"
    using out by (simp add: admitted_def)
  have sk': "sink (snd out)
               = push (Some (update_progress task_id)) vs (begin_task task_id (sink ?st))"
    using sk by (simp add: admitted_def)
  note pt = process_task_records [OF rec n out' sk' j1, of s e]
  show "job_records pl w now s e task_id req st
           = [new_job now req, (new_job now req)\<lparr>status := PROCESSING\<rparr>, j1]
             @ map (\<lambda>v. j1\<lparr>progress := min v 95\<rparr>) vs
             @ [task_outcome w s e (fst out) (progress_after j1 vs)]"
    unfolding job_records_def rj trace_from_def [symmetric] pt(2) t0 by simp
  show "job_launches pl w now s e task_id req st
           = drop (length (launched st)) (launched (snd out))"
    unfolding job_launches_def rj pt(1) by simp
  show "job_runs pl w now s e task_id req st
           = drop (length (runs st)) (runs (snd out))"
    unfolding job_runs_def rj pt(1) by simp
qed

lemma execute_inference_result:
  "result_ok w od n (fst (execute_inference pl w cmd env cb od n st))"
proof (cases "falls_back pl w cmd env st")
  case False
  obtain r ls vs where a: "attempt pl w (workdir st) cmd env od n = (r, ls, vs)"
    by (cases "attempt pl w (workdir st) cmd env od n") auto
  show ?thesis
    unfolding execute_inference_no_fallback [OF False] a
    using attempt_facts(2) [OF a] by simp
next
  case True
  then obtain c0 cs outs rc where cmd: "cmd = c0 # cs"
    and dirs: "is_dir w (workdir st)" "enterable w (workdir st) (project_path pl)"
    and run: "popen w (c0 # cs) env = Exited outs rc" "rc \<noteq> 0"
    and multi: "device_count st > 1" "sublist ''torchrun'' c0"
    by (auto simp: falls_back_def split: list.splits proc_outcome.splits)
  obtain r ls vs where a: "attempt pl w (abspath (workdir st) (project_path pl))
      (fallback_cmd pl od n) (single_env w) od n = (r, ls, vs)"
    by (cases "attempt pl w (abspath (workdir st) (project_path pl))
      (fallback_cmd pl od n) (single_env w) od n") auto
  show ?thesis
    unfolding cmd execute_inference_fallback [OF dirs run multi] a
    using attempt_facts(2) [OF a] by simp
qed

lemma generate_images_result:
  "result_ok w (pjoin (output_dir pl) task_id) (num_images_per_prompt req)
     (fst (generate_images pl w task_id req cb st))"
proof -
  define st2 where "st2 = notify cb 20 (notify cb 10 st)"
  define od where "od = pjoin (output_dir pl) task_id"
  define pf where "pf = pjoin od (task_id @ ''_prompt.txt'')"
  define out where
    "out = (if device_count st2 > 1
            then run_distributed_inference pl w task_id pf od req cb st2
            else run_single_inference pl w task_id pf od req cb st2)"
  have gi: "fst (generate_images pl w task_id req cb st) = fst out"
    unfolding generate_images_def Let_def st2_def [symmetric] od_def [symmetric]
      pf_def [symmetric] out_def [symmetric]
    by (cases "fst out") simp_all
  have "result_ok w od (num_images_per_prompt req) (fst out)"
    unfolding out_def run_distributed_inference_def run_single_inference_def
    by (simp add: execute_inference_result)
  then show ?thesis unfolding gi od_def .
qed

lemma run_job_generic:
  obtains ls vs r where
    "job_launches pl w now s e task_id req st = ls"
    and "length ls \<le> 1 \<longrightarrow> sorted vs"
    and "\<forall>v\<in>set vs. 30 < v \<and> v \<le> 85"
    and "result_ok w (pjoin (output_dir pl) task_id) (num_images_per_prompt req) r"
    and "job_records pl w now s e task_id req st
           = [new_job now req, (new_job now req)\<lparr>status := PROCESSING\<rparr>,
              (new_job now req)\<lparr>status := PROCESSING, progress := 10\<rparr>]
             @ map (\<lambda>v. (new_job now req)\<lparr>status := PROCESSING, progress := min v 95\<rparr>)
                 (callbacks vs r)
             @ [task_outcome w s e r
                  (progress_after ((new_job now req)\<lparr>status := PROCESSING, progress := 10\<rparr>)
                     (callbacks vs r))]"
proof -
  let ?cb = "Some (update_progress task_id)"
  let ?st = "admitted task_id now req st"
  define out where "out = generate_images pl w task_id req ?cb ?st"
  define j1 where "j1 = (new_job now req)\<lparr>status := PROCESSING, progress := 10\<rparr>"
  from generate_images_shape [of pl w task_id req ?cb ?st]
  obtain rs ls vs where
    shape: "snd out = ?st\<lparr>runs := runs ?st @ rs, launched := launched ?st @ ls,
                          sink := push ?cb (callbacks vs (fst out)) (sink ?st)\<rparr>"
    and srt: "length ls \<le> 1 \<longrightarrow> sorted vs" and bnd: "\<forall>v\<in>set vs. 30 < v \<and> v \<le> 85"
    unfolding out_def callbacks_def by blast
  have sk: "sink (snd out) = push ?cb (callbacks vs (fst out)) (sink ?st)"
    unfolding shape by simp
  note rj = run_job_records [OF out_def sk j1_def, of s e]
  have l: "job_launches pl w now s e task_id req st = ls"
    unfolding rj(2) shape by simp
  have f: "(\<lambda>v. j1\<lparr>progress := min v 95\<rparr>)
             = (\<lambda>v. (new_job now req)\<lparr>status := PROCESSING, progress := min v 95\<rparr>)"
    by (simp add: j1_def)
  have ok: "result_ok w (pjoin (output_dir pl) task_id) (num_images_per_prompt req) (fst out)"
    unfolding out_def by (rule generate_images_result)
  show ?thesis
    by (rule that [OF l srt bnd ok]) (simp add: rj(1) f j1_def)
qed


lemma callbacks_not_Nil [simp]: "callbacks vs r \<noteq> []"
  by (simp add: callbacks_def)

lemma progress_task_outcome:
  "progress (task_outcome w s e r j) = (case r of Inl x \<Rightarrow> progress j | Inr paths \<Rightarrow> 100)"
  by (simp add: task_outcome_def completed_update_def failed_update_def
        split: sum.splits exn.splits)

lemma status_task_outcome:
  "status (task_outcome w s e r j) = (case r of Inl x \<Rightarrow> FAILED | Inr paths \<Rightarrow> COMPLETED)"
  by (simp add: task_outcome_def completed_update_def failed_update_def
        split: sum.splits exn.splits)

lemma result_urls_task_outcome:
  "result_urls (task_outcome w s e r j)
     = (case r of Inl x \<Rightarrow> result_urls j | Inr paths \<Rightarrow> map (result_url w) paths)"
  by (simp add: task_outcome_def completed_update_def failed_update_def
        split: sum.splits exn.splits)

lemma error_task_outcome:
  "error (task_outcome w s e r j)
     = (case r of Inl x \<Rightarrow> (if x = KeyboardInterrupt then ''Task interrupted'' else str_exn x)
        | Inr paths \<Rightarrow> error j)"
  by (simp add: task_outcome_def completed_update_def failed_update_def
        split: sum.splits exn.splits)

lemma progress_after_fields [simp]:
  "status (progress_after j vs) = status j"
  "result_urls (progress_after j vs) = result_urls j"
  "error (progress_after j vs) = error j"
  by (simp_all add: progress_after_def)

lemma progress_after_progress:
  "vs \<noteq> [] \<Longrightarrow> progress (progress_after j vs) = min (last vs) 95"
  by (simp add: progress_after_def)




lemma job_records_sound:
  assumes "x \<in> set (job_records pl w now s e task_id req st)"
  shows "(status x \<noteq> COMPLETED \<and> progress x \<le> 95 \<and> result_urls x = [])
       \<or> (status x = COMPLETED \<and> progress x = 100
          \<and> result_urls x = map (result_url w)
               (collect_images w (pjoin (output_dir pl) task_id) (num_images_per_prompt req)))"
proof -
  let ?j0 = "new_job now req"
  let ?j1 = "?j0\<lparr>status := PROCESSING, progress := 10\<rparr>"
  obtain ls vs r where l: "job_launches pl w now s e task_id req st = ls"
    and srt: "length ls \<le> 1 \<longrightarrow> sorted vs"
    and bnd: "\<forall>v\<in>set vs. 30 < v \<and> v \<le> 85"
    and ok: "result_ok w (pjoin (output_dir pl) task_id) (num_images_per_prompt req) r"
    and recs: "job_records pl w now s e task_id req st
           = [?j0, ?j0\<lparr>status := PROCESSING\<rparr>, ?j1]
             @ map (\<lambda>v. ?j0\<lparr>status := PROCESSING, progress := min v 95\<rparr>) (callbacks vs r)
             @ [task_outcome w s e r (progress_after ?j1 (callbacks vs r))]"
    by (rule run_job_generic)
  let ?jf = "task_outcome w s e r (progress_after ?j1 (callbacks vs r))"
  from assms consider "x = ?j0" | "x = ?j0\<lparr>status := PROCESSING\<rparr>" | "x = ?j1"
    | v where "x = ?j0\<lparr>status := PROCESSING, progress := min v 95\<rparr>" | "x = ?jf"
    unfolding recs by auto
  then show ?thesis
  proof cases
    case 1
    then show ?thesis by (simp add: new_job_def)
  next
    case 2
    then show ?thesis by (simp add: new_job_def)
  next
    case 3
    then show ?thesis by (simp add: new_job_def)
  next
    case 4
    then show ?thesis by (simp add: new_job_def)
  next
    case 5
    show ?thesis
    proof (cases r)
      case (Inl ex)
      have "progress ?jf \<le> 95"
        by (simp add: Inl progress_task_outcome progress_after_progress)
      moreover have "status ?jf = FAILED" "result_urls ?jf = []"
        by (simp_all add: Inl status_task_outcome result_urls_task_outcome new_job_def)
      ultimately show ?thesis using 5 by simp
    next
      case (Inr paths)
      with ok have "paths = collect_images w (pjoin (output_dir pl) task_id)
                              (num_images_per_prompt req)"
        by (simp add: result_ok_def)
      then show ?thesis
        using 5 Inr
        by (simp add: status_task_outcome progress_task_outcome result_urls_task_outcome)
    qed
  qed
qed

section \<open>Runs with given process outcomes\<close>

lemma attempt_exited:
  assumes "is_dir w dir" and "enterable w dir (project_path pl)" and "cmd \<noteq> []"
    and "popen w cmd env = Exited outs rc"
  shows "attempt pl w dir cmd env od n =
           (if rc \<noteq> 0 then Inl (RuntimeError (failure_message rc))
            else Inr (collect_images w od n),
            [cmd], ramp 30 (progress_lines outs))"
  using assms by (simp add: attempt_def)

lemma attempt_launch_failed:
  assumes "is_dir w dir" and "enterable w dir (project_path pl)" and "cmd \<noteq> []"
    and "popen w cmd env = LaunchFailed k m f"
  shows "attempt pl w dir cmd env od n = (Inl (OSError k m f), [cmd], [])"
  using assms by (simp add: attempt_def)

lemma attempt_interrupted:
  assumes "is_dir w dir" and "enterable w dir (project_path pl)" and "cmd \<noteq> []"
    and "popen w cmd env = Interrupted outs"
  shows "attempt pl w dir cmd env od n =
           (Inl KeyboardInterrupt, [cmd], ramp 30 (progress_lines outs))"
  using assms by (simp add: attempt_def)

lemma attempt_no_entry:
  assumes "is_dir w dir" and "\<not> enterable w dir (project_path pl)"
  shows "attempt pl w dir cmd env od n = (Inl (chdir_failure w dir (project_path pl)), [], [])"
  using assms by (simp add: attempt_def)

lemma falls_back_sink [simp]:
  "falls_back pl w cmd env (st\<lparr>sink := x\<rparr>) = falls_back pl w cmd env st"
  by (simp add: falls_back_def)

lemma job_cmd_not_Nil [simp]:
  "job_single_cmd pl task_id req \<noteq> []"
  "job_distributed_cmd pl dc task_id req \<noteq> []"
  "job_fallback_cmd pl task_id req' \<noteq> []"
  by (simp_all add: job_single_cmd_def single_cmd_def job_distributed_cmd_def
        distributed_cmd_def job_fallback_cmd_def)

lemma generate_images_unfold:
  "generate_images pl w task_id req cb st =
     (let out = execute_inference pl w (job_cmd pl (device_count st) task_id req)
                  (job_env w (device_count st)) cb (task_dir pl task_id)
                  (num_images_per_prompt req) (st\<lparr>sink := push cb [10, 20] (sink st)\<rparr>)
      in (fst out, if isl (fst out) then snd out
                   else (snd out)\<lparr>sink := push cb [100] (sink (snd out))\<rparr>))"
proof -
  have st2: "notify cb 20 (notify cb 10 st) = st\<lparr>sink := push cb [10, 20] (sink st)\<rparr>"
    by (simp add: notify_push push_append [symmetric])
  show ?thesis
    unfolding generate_images_def Let_def st2 run_distributed_inference_def
      run_single_inference_def job_distributed_cmd_def job_single_cmd_def task_dir_def
      job_cmd_def job_env_def
    by (simp add: notify_push prod_eq_iff split: sum.splits)
qed

lemma generate_images_direct:
  assumes "\<not> falls_back pl w (job_cmd pl (device_count st) task_id req)
               (job_env w (device_count st)) st"
    and "attempt pl w (workdir st) (job_cmd pl (device_count st) task_id req)
           (job_env w (device_count st)) (task_dir pl task_id) (num_images_per_prompt req)
         = (r, ls, vs)"
  shows "generate_images pl w task_id req cb st =
           (r, st\<lparr>runs := runs st @ [job_cmd pl (device_count st) task_id req],
                  launched := launched st @ ls,
                  sink := push cb (callbacks vs r) (sink st)\<rparr>)"
proof -
  let ?st = "st\<lparr>sink := push cb [10, 20] (sink st)\<rparr>"
  have nf: "\<not> falls_back pl w (job_cmd pl (device_count st) task_id req)
               (job_env w (device_count st)) ?st"
    using assms(1) by simp
  show ?thesis
    unfolding generate_images_unfold execute_inference_no_fallback [OF nf]
    by (cases r) (simp_all add: assms(2) Let_def callbacks_def push_append [symmetric])
qed

lemma sublist_torchrun_distributed:
  "job_distributed_cmd pl dc task_id req = c0 # cs \<Longrightarrow> sublist ''torchrun'' c0"
  by (auto simp: job_distributed_cmd_def distributed_cmd_def)

lemma generate_images_retry:
  assumes "device_count st > 1" and "is_dir w (workdir st)"
    and "enterable w (workdir st) (project_path pl)"
    and "popen w (job_distributed_cmd pl (device_count st) task_id req)
           (distributed_env w (device_count st)) = Exited outs rc"
    and "rc \<noteq> 0"
    and "attempt pl w (project_dir pl st) (job_fallback_cmd pl task_id req) (single_env w)
           (task_dir pl task_id) (num_images_per_prompt req) = (r, ls, vs)"
  shows "generate_images pl w task_id req cb st =
           (r, st\<lparr>runs := runs st @ [job_distributed_cmd pl (device_count st) task_id req,
                                       job_fallback_cmd pl task_id req],
                  launched := launched st @ job_distributed_cmd pl (device_count st) task_id req # ls,
                  sink := push cb (callbacks (ramp 30 (progress_lines outs) @ vs) r) (sink st)\<rparr>)"
proof -
  let ?st = "st\<lparr>sink := push cb [10, 20] (sink st)\<rparr>"
  obtain c0 cs where c: "job_distributed_cmd pl (device_count st) task_id req = c0 # cs"
    by (simp add: job_distributed_cmd_def distributed_cmd_def)
  have a: "is_dir w (workdir ?st)" "enterable w (workdir ?st) (project_path pl)"
    using assms(2,3) by simp_all
  have p: "popen w (c0 # cs) (distributed_env w (device_count st)) = Exited outs rc"
    using assms(4) c by simp
  have m: "device_count ?st > 1" using assms(1) by simp
  note t = sublist_torchrun_distributed [OF c]
  have at: "attempt pl w (abspath (workdir ?st) (project_path pl))
              (fallback_cmd pl (task_dir pl task_id) (num_images_per_prompt req)) (single_env w)
              (task_dir pl task_id) (num_images_per_prompt req) = (r, ls, vs)"
    using assms(6) by (simp add: project_dir_def job_fallback_cmd_def)
  note ex = execute_inference_fallback [OF a p assms(5) m t, of cb "task_dir pl task_id"
      "num_images_per_prompt req", unfolded at]
  show ?thesis
    unfolding generate_images_unfold using assms(1)
    by (cases r)
       (simp_all add: job_cmd_def job_env_def c ex Let_def job_fallback_cmd_def callbacks_def
          push_append [symmetric])
qed


lemma job_explicit:
  assumes gi: "generate_images pl w task_id req (Some (update_progress task_id))
                 (admitted task_id now req st)
               = (r, (admitted task_id now req st)
                       \<lparr>runs := runs st @ rs, launched := launched st @ ls,
                        sink := push (Some (update_progress task_id)) (callbacks vs r)
                                  (sink (admitted task_id now req st))\<rparr>)"
  shows "map progress (job_records pl w now s e task_id req st)
           = [0, 0, 10] @ map (\<lambda>v. min v 95) (callbacks vs r)
             @ [progress (task_outcome w s e r
                  (progress_after ((new_job now req)\<lparr>status := PROCESSING, progress := 10\<rparr>)
                     (callbacks vs r)))]"
    and "job_launches pl w now s e task_id req st = ls"
    and "last (job_records pl w now s e task_id req st)
           = task_outcome w s e r
               (progress_after ((new_job now req)\<lparr>status := PROCESSING, progress := 10\<rparr>)
                  (callbacks vs r))"
    and "job_runs pl w now s e task_id req st = rs"
proof -
  let ?cb = "Some (update_progress task_id)"
  let ?st = "admitted task_id now req st"
  let ?j0 = "new_job now req"
  define out where "out = generate_images pl w task_id req ?cb ?st"
  define j1 where "j1 = ?j0\<lparr>status := PROCESSING, progress := 10\<rparr>"
  have f: "fst out = r" and sn: "snd out = ?st\<lparr>runs := runs st @ rs,
                        launched := launched st @ ls,
                        sink := push ?cb (callbacks vs r) (sink ?st)\<rparr>"
    unfolding out_def gi by simp_all
  have sk: "sink (snd out) = push ?cb (callbacks vs r) (sink ?st)"
    unfolding sn by simp
  note rj = run_job_records [OF out_def sk j1_def, of s e, unfolded f]
  have p: "progress \<circ> (\<lambda>v. j1\<lparr>progress := min v 95\<rparr>) = (\<lambda>v. min v 95)"
    by (rule ext) simp
  show "map progress (job_records pl w now s e task_id req st)
           = [0, 0, 10] @ map (\<lambda>v. min v 95) (callbacks vs r)
             @ [progress (task_outcome w s e r
                  (progress_after (?j0\<lparr>status := PROCESSING, progress := 10\<rparr>)
                     (callbacks vs r)))]"
    unfolding rj(1) map_append map_map p by (simp add: j1_def new_job_def)
  show "job_launches pl w now s e task_id req st = ls"
    unfolding rj(2) sn by simp
  show "last (job_records pl w now s e task_id req st)
           = task_outcome w s e r
               (progress_after (?j0\<lparr>status := PROCESSING, progress := 10\<rparr>) (callbacks vs r))"
    unfolding rj(1) by (simp add: j1_def)
  show "job_runs pl w now s e task_id req st = rs"
    unfolding rj(3) sn by simp
qed

lemma falls_back_admitted [simp]:
  "falls_back pl w cmd env (admitted task_id now req st) = falls_back pl w cmd env st"
  by (simp add: falls_back_def)

lemma project_dir_admitted [simp]:
  "project_dir pl (admitted task_id now req st) = project_dir pl st"
  by (simp add: project_dir_def)

lemma job_direct:
  assumes "\<not> falls_back pl w (job_cmd pl (device_count st) task_id req)
               (job_env w (device_count st)) st"
    and "attempt pl w (workdir st) (job_cmd pl (device_count st) task_id req)
           (job_env w (device_count st)) (task_dir pl task_id) (num_images_per_prompt req)
         = (r, ls, vs)"
  shows "map progress (job_records pl w now s e task_id req st)
           = [0, 0, 10] @ map (\<lambda>v. min v 95) (callbacks vs r)
             @ [progress (task_outcome w s e r
                  (progress_after ((new_job now req)\<lparr>status := PROCESSING, progress := 10\<rparr>)
                     (callbacks vs r)))]"
    and "job_launches pl w now s e task_id req st = ls"
    and "last (job_records pl w now s e task_id req st)
           = task_outcome w s e r
               (progress_after ((new_job now req)\<lparr>status := PROCESSING, progress := 10\<rparr>)
                  (callbacks vs r))"
    and "job_runs pl w now s e task_id req st = [job_cmd pl (device_count st) task_id req]"
proof -
  let ?st = "admitted task_id now req st"
  have nf: "\<not> falls_back pl w (job_cmd pl (device_count ?st) task_id req)
               (job_env w (device_count ?st)) ?st"
    using assms(1) by simp
  have at: "attempt pl w (workdir ?st) (job_cmd pl (device_count ?st) task_id req)
           (job_env w (device_count ?st)) (task_dir pl task_id) (num_images_per_prompt req)
         = (r, ls, vs)"
    using assms(2) by simp
  note gi = generate_images_direct [OF nf at, of "Some (update_progress task_id)",
      unfolded admitted_fields]
  note je = job_explicit [OF gi, of s e]
  show "map progress (job_records pl w now s e task_id req st)
           = [0, 0, 10] @ map (\<lambda>v. min v 95) (callbacks vs r)
             @ [progress (task_outcome w s e r
                  (progress_after ((new_job now req)\<lparr>status := PROCESSING, progress := 10\<rparr>)
                     (callbacks vs r)))]"
    by (rule je(1))
  show "job_launches pl w now s e task_id req st = ls"
    by (rule je(2))
  show "last (job_records pl w now s e task_id req st)
           = task_outcome w s e r
               (progress_after ((new_job now req)\<lparr>status := PROCESSING, progress := 10\<rparr>)
                  (callbacks vs r))"
    by (rule je(3))
  show "job_runs pl w now s e task_id req st = [job_cmd pl (device_count st) task_id req]"
    by (rule je(4))
qed

lemma job_retry:
  assumes "device_count st > 1" and "is_dir w (workdir st)"
    and "enterable w (workdir st) (project_path pl)"
    and "popen w (job_distributed_cmd pl (device_count st) task_id req)
           (distributed_env w (device_count st)) = Exited outs rc"
    and "rc \<noteq> 0"
    and "attempt pl w (project_dir pl st) (job_fallback_cmd pl task_id req) (single_env w)
           (task_dir pl task_id) (num_images_per_prompt req) = (r, ls, vs)"
  shows "map progress (job_records pl w now s e task_id req st)
           = [0, 0, 10] @ map (\<lambda>v. min v 95) (callbacks (ramp 30 (progress_lines outs) @ vs) r)
             @ [progress (task_outcome w s e r
                  (progress_after ((new_job now req)\<lparr>status := PROCESSING, progress := 10\<rparr>)
                     (callbacks (ramp 30 (progress_lines outs) @ vs) r)))]"
    and "job_launches pl w now s e task_id req st
           = job_distributed_cmd pl (device_count st) task_id req # ls"
    and "last (job_records pl w now s e task_id req st)
           = task_outcome w s e r
               (progress_after ((new_job now req)\<lparr>status := PROCESSING, progress := 10\<rparr>)
                  (callbacks (ramp 30 (progress_lines outs) @ vs) r))"
    and "job_runs pl w now s e task_id req st
           = [job_distributed_cmd pl (device_count st) task_id req,
              job_fallback_cmd pl task_id req]"
proof -
  let ?st = "admitted task_id now req st"
  have a: "device_count ?st > 1" "is_dir w (workdir ?st)"
    "enterable w (workdir ?st) (project_path pl)"
    using assms(1,2,3) by simp_all
  have p: "popen w (job_distributed_cmd pl (device_count ?st) task_id req)
             (distributed_env w (device_count ?st)) = Exited outs rc"
    using assms(4) by simp
  have at: "attempt pl w (project_dir pl ?st) (job_fallback_cmd pl task_id req) (single_env w)
           (task_dir pl task_id) (num_images_per_prompt req) = (r, ls, vs)"
    using assms(6) by simp
  note gi = generate_images_retry [OF a p assms(5) at, of "Some (update_progress task_id)",
      unfolded admitted_fields]
  have gi': "generate_images pl w task_id req (Some (update_progress task_id)) ?st
      = (r, ?st\<lparr>runs := runs st @ [job_distributed_cmd pl (device_count st) task_id req,
                                       job_fallback_cmd pl task_id req],
               launched := launched st @ (job_distributed_cmd pl (device_count st) task_id req # ls),
               sink := push (Some (update_progress task_id))
                         (callbacks (ramp 30 (progress_lines outs) @ vs) r) (sink ?st)\<rparr>)"
    using gi by simp
  note je = job_explicit [OF gi', of s e]
  show "map progress (job_records pl w now s e task_id req st)
           = [0, 0, 10] @ map (\<lambda>v. min v 95) (callbacks (ramp 30 (progress_lines outs) @ vs) r)
             @ [progress (task_outcome w s e r
                  (progress_after ((new_job now req)\<lparr>status := PROCESSING, progress := 10\<rparr>)
                     (callbacks (ramp 30 (progress_lines outs) @ vs) r)))]"
    by (rule je(1))
  show "job_launches pl w now s e task_id req st
           = job_distributed_cmd pl (device_count st) task_id req # ls"
    by (rule je(2))
  show "last (job_records pl w now s e task_id req st)
           = task_outcome w s e r
               (progress_after ((new_job now req)\<lparr>status := PROCESSING, progress := 10\<rparr>)
                  (callbacks (ramp 30 (progress_lines outs) @ vs) r))"
    by (rule je(3))
  show "job_runs pl w now s e task_id req st
           = [job_distributed_cmd pl (device_count st) task_id req,
              job_fallback_cmd pl task_id req]"
    by (rule je(4))
qed

lemma project_dir_is_dir:
  "enterable w (workdir st) (project_path pl) \<Longrightarrow> is_dir w (project_dir pl st)"
  by (simp add: enterable_def project_dir_def)

lemma job_fallback:
  assumes "device_count st > 1" and "is_dir w (workdir st)"
    and "enterable w (workdir st) (project_path pl)"
    and "popen w (job_distributed_cmd pl (device_count st) task_id req)
           (distributed_env w (device_count st)) = Exited outs1 rc1"
    and "rc1 \<noteq> 0"
    and "enterable w (project_dir pl st) (project_path pl)"
    and "popen w (job_fallback_cmd pl task_id req) (single_env w) = Exited outs2 rc2"
  shows "map progress (job_records pl w now s e task_id req st)
           = [0, 0, 10]
             @ map (\<lambda>v. min v 95)
                 (callbacks (ramp 30 (progress_lines outs1) @ ramp 30 (progress_lines outs2))
                    (exit_result w pl task_id req rc2))
             @ [progress (task_outcome w s e (exit_result w pl task_id req rc2)
                  (progress_after ((new_job now req)\<lparr>status := PROCESSING, progress := 10\<rparr>)
                     (callbacks (ramp 30 (progress_lines outs1) @ ramp 30 (progress_lines outs2))
                        (exit_result w pl task_id req rc2))))]"
    and "job_launches pl w now s e task_id req st
           = [job_distributed_cmd pl (device_count st) task_id req,
              job_fallback_cmd pl task_id req]"
    and "last (job_records pl w now s e task_id req st)
           = task_outcome w s e (exit_result w pl task_id req rc2)
               (progress_after ((new_job now req)\<lparr>status := PROCESSING, progress := 10\<rparr>)
                  (callbacks (ramp 30 (progress_lines outs1) @ ramp 30 (progress_lines outs2))
                     (exit_result w pl task_id req rc2)))"
proof -
  have at: "attempt pl w (project_dir pl st) (job_fallback_cmd pl task_id req) (single_env w)
              (task_dir pl task_id) (num_images_per_prompt req)
            = (exit_result w pl task_id req rc2, [job_fallback_cmd pl task_id req],
               ramp 30 (progress_lines outs2))"
    using attempt_exited [OF project_dir_is_dir [OF assms(3)] assms(6) _ assms(7)]
    by (simp add: exit_result_def)
  note jr = job_retry [OF assms(1-5) at, of now s e]
  show "map progress (job_records pl w now s e task_id req st)
           = [0, 0, 10]
             @ map (\<lambda>v. min v 95)
                 (callbacks (ramp 30 (progress_lines outs1) @ ramp 30 (progress_lines outs2))
                    (exit_result w pl task_id req rc2))
             @ [progress (task_outcome w s e (exit_result w pl task_id req rc2)
                  (progress_after ((new_job now req)\<lparr>status := PROCESSING, progress := 10\<rparr>)
                     (callbacks (ramp 30 (progress_lines outs1) @ ramp 30 (progress_lines outs2))
                        (exit_result w pl task_id req rc2))))]"
    by (rule jr(1))
  show "job_launches pl w now s e task_id req st
           = [job_distributed_cmd pl (device_count st) task_id req,
              job_fallback_cmd pl task_id req]"
    by (rule jr(2))
  show "last (job_records pl w now s e task_id req st)
           = task_outcome w s e (exit_result w pl task_id req rc2)
               (progress_after ((new_job now req)\<lparr>status := PROCESSING, progress := 10\<rparr>)
                  (callbacks (ramp 30 (progress_lines outs1) @ ramp 30 (progress_lines outs2))
                     (exit_result w pl task_id req rc2)))"
    by (rule jr(3))
qed

lemma single_never_falls_back:
  "device_count st \<le> 1 \<Longrightarrow> \<not> falls_back pl w cmd env st"
  by (simp add: falls_back_def)

lemma job_single:
  assumes "device_count st \<le> 1" and "is_dir w (workdir st)"
    and "enterable w (workdir st) (project_path pl)"
    and "popen w (job_single_cmd pl task_id req) (single_env w) = Exited outs rc"
  shows "job_launches pl w now s e task_id req st = [job_single_cmd pl task_id req]"
    and "last (job_records pl w now s e task_id req st)
           = task_outcome w s e (exit_result w pl task_id req rc)
               (progress_after ((new_job now req)\<lparr>status := PROCESSING, progress := 10\<rparr>)
                  (callbacks (ramp 30 (progress_lines outs)) (exit_result w pl task_id req rc)))"
proof -
  have c: "job_cmd pl (device_count st) task_id req = job_single_cmd pl task_id req"
    "job_env w (device_count st) = single_env w"
    using assms(1) by (simp_all add: job_cmd_def job_env_def)
  have at: "attempt pl w (workdir st) (job_cmd pl (device_count st) task_id req)
           (job_env w (device_count st)) (task_dir pl task_id) (num_images_per_prompt req)
         = (exit_result w pl task_id req rc, [job_single_cmd pl task_id req],
            ramp 30 (progress_lines outs))"
    unfolding c using attempt_exited [OF assms(2,3) _ assms(4)]
    by (simp add: exit_result_def)
  note jd = job_direct [OF single_never_falls_back [OF assms(1)] at, of now s e]
  show "job_launches pl w now s e task_id req st = [job_single_cmd pl task_id req]"
    by (rule jd(2))
  show "last (job_records pl w now s e task_id req st)
           = task_outcome w s e (exit_result w pl task_id req rc)
               (progress_after ((new_job now req)\<lparr>status := PROCESSING, progress := 10\<rparr>)
                  (callbacks (ramp 30 (progress_lines outs)) (exit_result w pl task_id req rc)))"
    by (rule jd(3))
qed

section \<open>Facts about the concrete jobs\<close>

lemma flaky_progress_lines:
  "progress_lines [''step 1\<newline>'', ''step 2\<newline>''] = 2"
  "progress_lines [''step 1\<newline>''] = 1"
  by (simp_all add: progress_lines_def has_progress_keyword_def progress_keywords_def lower_def
        lower_char_def sublist_Cons_right)

lemma ramp_30_small: "ramp 30 1 = [32]" "ramp 30 2 = [32, 34]"
  by (simp_all add: numeral_2_eq_2)

lemma flaky_collect:
  "collect_images flaky_world ''generated_images/img_1'' 2
     = [''generated_images/img_1/b.png'', ''generated_images/img_1/a.png'']"
  by (simp add: collect_images_def glob_def image_extensions_def flaky_world_def pjoin_def
        sort_reverse_def slice_to_def suffix_to_prefix)

lemma flaky_retry_cmd:
  "job_fallback_cmd two_device_pipeline ''img_1'' example_request
     = [''python3'', ''inference.py'',
        ''--model_path'', ''/data/HiDream-I1-Full'',
        ''--model_path_extra'', ''/data/Llama-3.1-8B-Instruct'',
        ''--prompt_file'', ''generated_images/img_1/img_1_prompt.txt'',
        ''--prompt_file_type'', ''plain'',
        ''--info_file_save_path'', ''generated_images/img_1/img_1_info.json'',
        ''--save_dir'', ''generated_images/img_1'',
        ''--num_images_per_prompt'', ''2'',
        ''--resolution'', ''1024x1024'',
        ''--num_inference_steps'', ''50'',
        ''--batch_size'', ''1'',
        ''--infer_type'', ''Accuracy'',
        ''--device_id'', ''0'']"
  by (simp add: job_fallback_cmd_def fallback_cmd_def fallback_request_def single_cmd_def
        task_dir_def pjoin_def basename_def two_device_pipeline_def example_pipeline_def
        example_request_def str_int_def str_nat.simps)

lemma idle_fields [simp]:
  "device_count (idle dc) = dc"
  "workdir (idle dc) = ''/srv/api''"
  "project_dir pl (idle dc) = abspath ''/srv/api'' (project_path pl)"
  by (simp_all add: idle_def workdir_def project_dir_def)

lemma concrete_dirs [simp]:
  "is_dir chatty_world p"
  "is_dir flaky_world p"
  "is_dir failing_world p"
  "is_dir unlaunchable_world p"
  "is_dir interrupted_world p"
  "is_dir sparse_world p = (p = ''/srv/api'' \<or> p = ''/srv/api/HiDream-I1'')"
  by (simp_all add: chatty_world_def flaky_world_def failing_world_def unlaunchable_world_def
        interrupted_world_def sparse_world_def)

lemma concrete_project_paths [simp]:
  "project_path example_pipeline = ''/workspace/HiDream-I1''"
  "project_path two_device_pipeline = ''/workspace/HiDream-I1''"
  "project_path relative_pipeline = ''HiDream-I1''"
  by (simp_all add: example_pipeline_def two_device_pipeline_def relative_pipeline_def)

lemma concrete_commands [simp]:
  "hd (job_single_cmd pl task_id req) = ''python3''"
  "hd (job_fallback_cmd pl task_id req') = ''python3''"
  "hd (job_distributed_cmd pl dc task_id req) = ''torchrun''"
  by (simp_all add: job_single_cmd_def job_fallback_cmd_def fallback_cmd_def single_cmd_def
        job_distributed_cmd_def distributed_cmd_def)

lemma concrete_popen:
  "popen chatty_world cmd env = Exited chatty_output 0"
  "popen flaky_world cmd env
     = (if hd cmd = ''torchrun'' then Exited [''step 1\<newline>'', ''step 2\<newline>''] 1
        else Exited [''step 1\<newline>''] 0)"
  "popen failing_world cmd env
     = (if hd cmd = ''torchrun'' then Exited [''HCCL timeout\<newline>''] 1
        else Exited [''out of memory\<newline>''] 137)"
  "popen sparse_world cmd env
     = (if hd cmd = ''torchrun'' then Exited [''HCCL timeout\<newline>''] 1
        else Exited [''out of memory\<newline>''] 137)"
  "popen unlaunchable_world cmd env
     = (if hd cmd = ''torchrun'' then Exited [''HCCL timeout\<newline>''] 1
        else LaunchFailed 2 ''No such file or directory'' (Some ''python3''))"
  "popen interrupted_world cmd env
     = (if hd cmd = ''torchrun'' then Exited [''HCCL timeout\<newline>''] 1
        else Interrupted [''step 1\<newline>''])"
  by (simp_all add: chatty_world_def flaky_world_def failing_world_def sparse_world_def
        unlaunchable_world_def interrupted_world_def)


section \<open>Launches and last record of a job\<close>

lemma job_records_last_mem:
  "last (job_records pl w now s e task_id req st) \<in> set (job_records pl w now s e task_id req st)"
proof -
  obtain ls vs r where l: "job_launches pl w now s e task_id req st = ls"
    and srt: "length ls \<le> 1 \<longrightarrow> sorted vs"
    and bnd: "\<forall>v\<in>set vs. 30 < v \<and> v \<le> 85"
    and ok: "result_ok w (pjoin (output_dir pl) task_id) (num_images_per_prompt req) r"
    and recs: "job_records pl w now s e task_id req st
           = [new_job now req, (new_job now req)\<lparr>status := PROCESSING\<rparr>,
              (new_job now req)\<lparr>status := PROCESSING, progress := 10\<rparr>]
             @ map (\<lambda>v. (new_job now req)\<lparr>status := PROCESSING, progress := min v 95\<rparr>)
                 (callbacks vs r)
             @ [task_outcome w s e r
                  (progress_after ((new_job now req)\<lparr>status := PROCESSING, progress := 10\<rparr>)
                     (callbacks vs r))]"
    by (rule run_job_generic)
  show ?thesis unfolding recs by simp
qed



text \<open>
  What becomes of a job whose distributed run exits with a code other than 0, for each way
  in which the single-device retry can end.
\<close>

lemma attempt_launches:
  assumes "is_dir w dir" and "enterable w dir (project_path pl)" and "cmd \<noteq> []"
  shows "fst (snd (attempt pl w dir cmd env od n)) = [cmd]"
  using assms by (simp add: attempt_def split: proc_outcome.splits)

lemma chdir_failure_Exception [simp]: "chdir_failure w dir p \<noteq> KeyboardInterrupt"
  by (simp add: chdir_failure_def)

lemma job_retry_outcome:
  assumes "device_count st > 1" and "is_dir w (workdir st)"
    and "enterable w (workdir st) (project_path pl)"
    and "popen w (job_distributed_cmd pl (device_count st) task_id req)
           (distributed_env w (device_count st)) = Exited outs1 rc1"
    and "rc1 \<noteq> 0"
  shows "job_runs pl w now s e task_id req st
           = [job_distributed_cmd pl (device_count st) task_id req,
              job_fallback_cmd pl task_id req]"
    and "\<not> enterable w (project_dir pl st) (project_path pl) \<Longrightarrow>
         job_launches pl w now s e task_id req st
           = [job_distributed_cmd pl (device_count st) task_id req]
         \<and> status (last (job_records pl w now s e task_id req st)) = FAILED
         \<and> error (last (job_records pl w now s e task_id req st))
             = str_exn (chdir_failure w (project_dir pl st) (project_path pl))"
    and "enterable w (project_dir pl st) (project_path pl) \<Longrightarrow>
         job_launches pl w now s e task_id req st
           = [job_distributed_cmd pl (device_count st) task_id req,
              job_fallback_cmd pl task_id req]"
    and "enterable w (project_dir pl st) (project_path pl) \<Longrightarrow>
         popen w (job_fallback_cmd pl task_id req) (single_env w) = Exited outs2 rc2 \<Longrightarrow>
         status (last (job_records pl w now s e task_id req st))
           = (if rc2 = 0 then COMPLETED else FAILED)
         \<and> error (last (job_records pl w now s e task_id req st))
             = (if rc2 = 0 then [] else failure_message rc2)"
    and "enterable w (project_dir pl st) (project_path pl) \<Longrightarrow>
         popen w (job_fallback_cmd pl task_id req) (single_env w) = LaunchFailed k m f \<Longrightarrow>
         status (last (job_records pl w now s e task_id req st)) = FAILED
         \<and> error (last (job_records pl w now s e task_id req st)) = str_exn (OSError k m f)"
    and "enterable w (project_dir pl st) (project_path pl) \<Longrightarrow>
         popen w (job_fallback_cmd pl task_id req) (single_env w) = Interrupted outs3 \<Longrightarrow>
         status (last (job_records pl w now s e task_id req st)) = FAILED
         \<and> error (last (job_records pl w now s e task_id req st)) = ''Task interrupted''"
proof -
  let ?at = "attempt pl w (project_dir pl st) (job_fallback_cmd pl task_id req) (single_env w)
               (task_dir pl task_id) (num_images_per_prompt req)"
  note d = project_dir_is_dir [OF assms(3)]
  obtain r ls vs where at: "?at = (r, ls, vs)"
    by (cases ?at) auto
  show "job_runs pl w now s e task_id req st
           = [job_distributed_cmd pl (device_count st) task_id req,
              job_fallback_cmd pl task_id req]"
    by (rule job_retry(4) [OF assms at])
  show "job_launches pl w now s e task_id req st
           = [job_distributed_cmd pl (device_count st) task_id req]
         \<and> status (last (job_records pl w now s e task_id req st)) = FAILED
         \<and> error (last (job_records pl w now s e task_id req st))
             = str_exn (chdir_failure w (project_dir pl st) (project_path pl))"
    if "\<not> enterable w (project_dir pl st) (project_path pl)"
    unfolding job_retry(2,3) [OF assms attempt_no_entry [OF d that]]
    by (simp add: status_task_outcome error_task_outcome)
  show "job_launches pl w now s e task_id req st
           = [job_distributed_cmd pl (device_count st) task_id req,
              job_fallback_cmd pl task_id req]"
    if "enterable w (project_dir pl st) (project_path pl)"
    unfolding job_retry(2) [OF assms at]
    using attempt_launches [OF d that, of "job_fallback_cmd pl task_id req" "single_env w"
        "task_dir pl task_id" "num_images_per_prompt req"]
    by (simp add: at)
  show "status (last (job_records pl w now s e task_id req st))
           = (if rc2 = 0 then COMPLETED else FAILED)
         \<and> error (last (job_records pl w now s e task_id req st))
             = (if rc2 = 0 then [] else failure_message rc2)"
    if "enterable w (project_dir pl st) (project_path pl)"
      and "popen w (job_fallback_cmd pl task_id req) (single_env w) = Exited outs2 rc2"
    unfolding job_retry(3) [OF assms attempt_exited [OF d that(1) _ that(2)], simplified]
    by (simp add: status_task_outcome error_task_outcome new_job_def)
  show "status (last (job_records pl w now s e task_id req st)) = FAILED
         \<and> error (last (job_records pl w now s e task_id req st)) = str_exn (OSError k m f)"
    if "enterable w (project_dir pl st) (project_path pl)"
      and "popen w (job_fallback_cmd pl task_id req) (single_env w) = LaunchFailed k m f"
    unfolding job_retry(3) [OF assms attempt_launch_failed [OF d that(1) _ that(2)], simplified]
    by (simp add: status_task_outcome error_task_outcome)
  show "status (last (job_records pl w now s e task_id req st)) = FAILED
         \<and> error (last (job_records pl w now s e task_id req st)) = ''Task interrupted''"
    if "enterable w (project_dir pl st) (project_path pl)"
      and "popen w (job_fallback_cmd pl task_id req) (single_env w) = Interrupted outs3"
    unfolding job_retry(3) [OF assms attempt_interrupted [OF d that(1) _ that(2)], simplified]
    by (simp add: status_task_outcome error_task_outcome)
qed


section \<open>Properties of the job lifecycle\<close>




text \<open>
  Claim C2, amended. In every observable record of a job that is not \<open>COMPLETED\<close>
  (so \<open>PENDING\<close>, \<open>PROCESSING\<close> or \<open>FAILED\<close>) the result locations are empty; and
  when the job ends \<open>COMPLETED\<close> its result locations are the references of the files
  that the collector returned for the task's directory, as many as those, possibly none.
\<close>

theorem result_locations:
  "(\<forall>x \<in> set (job_records pl w now s e task_id req st).
       status x \<noteq> COMPLETED \<longrightarrow> result_urls x = [])
   \<and> (status (last (job_records pl w now s e task_id req st)) = COMPLETED \<longrightarrow>
        result_urls (last (job_records pl w now s e task_id req st))
          = map (result_url w)
              (collect_images w (pjoin (output_dir pl) task_id) (num_images_per_prompt req)))"
proof -
  have a: "result_urls x = []"
    if "x \<in> set (job_records pl w now s e task_id req st)" and "status x \<noteq> COMPLETED" for x
    using job_records_sound [OF that(1)] that(2) by auto
  have b: "result_urls (last (job_records pl w now s e task_id req st))
          = map (result_url w)
              (collect_images w (pjoin (output_dir pl) task_id) (num_images_per_prompt req))"
    if "status (last (job_records pl w now s e task_id req st)) = COMPLETED"
    using job_records_sound [OF job_records_last_mem [of pl w now s e task_id req st]] that
    by auto
  show ?thesis using a b by blast
qed

theorem result_locations_witness:
  "status (last (job_records two_device_pipeline flaky_world 0 1 2 ''img_1''
                   example_request (idle 2))) = COMPLETED
   \<and> result_urls (last (job_records two_device_pipeline flaky_world 0 1 2 ''img_1''
                          example_request (idle 2)))
       = [''http://localhost:8088/images/b.png'', ''http://localhost:8088/images/a.png'']"
proof -
  have l: "last (job_records two_device_pipeline flaky_world 0 1 2 ''img_1''
                   example_request (idle 2))
        = task_outcome flaky_world 1 2
            (exit_result flaky_world two_device_pipeline ''img_1'' example_request 0)
            (progress_after ((new_job 0 example_request)\<lparr>status := PROCESSING, progress := 10\<rparr>)
               (callbacks (ramp 30 (progress_lines [''step 1\<newline>'', ''step 2\<newline>''])
                           @ ramp 30 (progress_lines [''step 1\<newline>'']))
                  (exit_result flaky_world two_device_pipeline ''img_1'' example_request 0)))"
    by (rule job_fallback(3) [where ?rc1.0 = 1])
       (simp_all add: enterable_def concrete_popen)
  have st: "status (last (job_records two_device_pipeline flaky_world 0 1 2 ''img_1''
                   example_request (idle 2))) = COMPLETED"
    unfolding l by (simp add: status_task_outcome exit_result_def)
  have d: "pjoin (output_dir two_device_pipeline) ''img_1'' = ''generated_images/img_1''"
    by (simp add: two_device_pipeline_def example_pipeline_def pjoin_def)
  have n: "num_images_per_prompt example_request = 2"
    by (simp add: example_request_def)
  have u: "result_url flaky_world ''generated_images/img_1/b.png''
             = ''http://localhost:8088/images/b.png''"
    "result_url flaky_world ''generated_images/img_1/a.png''
             = ''http://localhost:8088/images/a.png''"
    by (simp_all add: result_url_def getenv_def flaky_world_def basename_def)
  show ?thesis
    using result_locations [of two_device_pipeline flaky_world 0 1 2 "''img_1''"
        example_request "idle 2"] st
    by (simp add: d n flaky_collect u)
qed

text \<open>
  Claim C2 as stated fails: a process that exits with 0 and leaves no image file in the
  task's directory gives a \<open>COMPLETED\<close> job whose result locations are empty.
\<close>

theorem completed_without_results:
  "status (last (job_records example_pipeline chatty_world 0 1 2 ''img_1''
                   example_request (idle 1))) = COMPLETED
   \<and> result_urls (last (job_records example_pipeline chatty_world 0 1 2 ''img_1''
                          example_request (idle 1))) = []"
proof -
  have l: "last (job_records example_pipeline chatty_world 0 1 2 ''img_1''
                   example_request (idle 1))
        = task_outcome chatty_world 1 2
            (exit_result chatty_world example_pipeline ''img_1'' example_request 0)
            (progress_after ((new_job 0 example_request)\<lparr>status := PROCESSING, progress := 10\<rparr>)
               (callbacks (ramp 30 (progress_lines chatty_output))
                  (exit_result chatty_world example_pipeline ''img_1'' example_request 0)))"
    by (rule job_single(2)) (simp_all add: enterable_def concrete_popen)
  have c: "collect_images chatty_world d n = []" for d n
    by (simp add: collect_images_def glob_def chatty_world_def)
  show ?thesis
    unfolding l by (simp add: status_task_outcome result_urls_task_outcome exit_result_def c)
qed







text \<open>
  Claim C4, amended. After a failed distributed run the command line that the runner is
  called with for the single-device retry is built from the default resolution and the
  default number of inference steps of \<open>ImageGenerationRequest\<close>, but from the image
  count of the job's own request. It is the command line of the process that the retry
  launches, which it does whenever it can enter the project directory again: always when
  the project path is absolute.
\<close>

theorem retry_request_values:
  assumes "1 < device_count st" and "is_dir w (workdir st)"
    and "enterable w (workdir st) (project_path pl)"
    and "popen w (job_distributed_cmd pl (device_count st) task_id req)
           (distributed_env w (device_count st)) = Exited outs rc"
    and "rc \<noteq> 0"
  shows "job_runs pl w now s e task_id req st
           = [job_distributed_cmd pl (device_count st) task_id req,
              single_cmd pl (basename (task_dir pl task_id))
                (pjoin (task_dir pl task_id) (basename (task_dir pl task_id) @ ''_prompt.txt''))
                (task_dir pl task_id)
                \<lparr>num_images_per_prompt = num_images_per_prompt req,
                 resolution = resolution default_request,
                 num_inference_steps = num_inference_steps default_request\<rparr>]
       \<and> (prefix ''/'' (project_path pl) \<or> enterable w (project_dir pl st) (project_path pl)
            \<longrightarrow> job_launches pl w now s e task_id req st
                 = job_runs pl w now s e task_id req st)"
proof -
  note o = job_retry_outcome [OF assms, where now = now and s = s and e = e]
  have c: "job_fallback_cmd pl task_id req
             = single_cmd pl (basename (task_dir pl task_id))
                (pjoin (task_dir pl task_id) (basename (task_dir pl task_id) @ ''_prompt.txt''))
                (task_dir pl task_id)
                \<lparr>num_images_per_prompt = num_images_per_prompt req,
                 resolution = resolution default_request,
                 num_inference_steps = num_inference_steps default_request\<rparr>"
    by (simp add: job_fallback_cmd_def fallback_cmd_def fallback_request_def default_request_def)
  have "enterable w (project_dir pl st) (project_path pl)" if "prefix ''/'' (project_path pl)"
    using assms(3) that by (simp add: enterable_def abspath_def)
  then have "job_launches pl w now s e task_id req st = job_runs pl w now s e task_id req st"
    if "prefix ''/'' (project_path pl) \<or> enterable w (project_dir pl st) (project_path pl)"
    using that o(1) o(3) by auto
  then show ?thesis
    using o(1) unfolding c by blast
qed

theorem retry_request_values_witness:
  "option_value ''--resolution''
     (last (job_launches two_device_pipeline flaky_world 0 1 2 ''img_1'' example_request (idle 2)))
     = Some ''1024x1024''
   \<and> option_value ''--num_inference_steps''
     (last (job_launches two_device_pipeline flaky_world 0 1 2 ''img_1'' example_request (idle 2)))
     = Some ''50''
   \<and> option_value ''--num_images_per_prompt''
     (last (job_launches two_device_pipeline flaky_world 0 1 2 ''img_1'' example_request (idle 2)))
     = Some ''2''"
proof -
  have "last (job_launches two_device_pipeline flaky_world 0 1 2 ''img_1'' example_request
                (idle 2))
          = job_fallback_cmd two_device_pipeline ''img_1'' example_request"
    using retry_request_values [of "idle 2" flaky_world two_device_pipeline "''img_1''"
        example_request "[''step 1\<newline>'', ''step 2\<newline>'']" 1 0 1 2]
    by (simp add: enterable_def concrete_popen job_fallback_cmd_def fallback_cmd_def
          fallback_request_def default_request_def)
  then show ?thesis
    by (simp add: flaky_retry_cmd)
qed

text \<open>
  Claim C4 as stated fails for the image count: for a request of 2 images the retry is
  launched with \<open>--num_images_per_prompt 2\<close>, where the default is 1.
\<close>

theorem retry_keeps_image_count:
  "num_images_per_prompt example_request = 2
   \<and> option_value ''--num_images_per_prompt''
       (last (job_launches two_device_pipeline flaky_world 0 1 2 ''img_1'' example_request
                (idle 2)))
       = Some ''2''
   \<and> str_int (num_images_per_prompt default_request) = ''1''"
proof -
  have "job_launches two_device_pipeline flaky_world 0 1 2 ''img_1'' example_request (idle 2)
          = [job_distributed_cmd two_device_pipeline (device_count (idle 2)) ''img_1''
               example_request,
             job_fallback_cmd two_device_pipeline ''img_1'' example_request]"
    by (rule job_fallback(2) [where ?outs1.0 = "[''step 1\<newline>'', ''step 2\<newline>'']"
          and ?rc1.0 = 1 and ?outs2.0 = "[''step 1\<newline>'']" and ?rc2.0 = 0])
       (simp_all add: enterable_def concrete_popen)
  moreover have "num_images_per_prompt example_request = 2"
    by (simp add: example_request_def)
  moreover have "str_int (num_images_per_prompt default_request) = ''1''"
    by (simp add: default_request_def str_int_def str_nat.simps)
  ultimately show ?thesis
    by (simp add: flaky_retry_cmd)
qed

text \<open>
  Claim C10. \<open>update_progress\<close> on a task without record returns the server as it is
  (being a function to servers, it raises nothing); on a task with a record \<open>j\<close> it
  stores \<open>j\<close> with progress \<open>min p 95\<close> and changes no other entry; and no observable
  record of a job has a progress above 95 unless it is the \<open>COMPLETED\<close> record, whose
  progress is 100.
\<close>

theorem update_progress_caps:
  "(status_dict srv task_id = None \<longrightarrow> update_progress task_id p srv = srv)
   \<and> (\<forall>j. status_dict srv task_id = Some j \<longrightarrow>
          status_dict (update_progress task_id p srv)
            = (status_dict srv)(task_id \<mapsto> j\<lparr>progress := min p 95\<rparr>))
   \<and> (\<forall>x \<in> set (job_records pl w now s e task_id req st).
          95 < progress x \<longrightarrow> status x = COMPLETED \<and> progress x = 100)"
proof -
  have c: "status x = COMPLETED \<and> progress x = 100"
    if "x \<in> set (job_records pl w now s e task_id req st)" and "95 < progress x" for x
    using job_records_sound [OF that(1)] that(2) by auto
  show ?thesis
    using c by (auto simp: update_progress_def)
qed

section \<open>Properties of the result collector\<close>

lemma slice_to_length: "0 \<le> n \<Longrightarrow> length (slice_to n xs) \<le> nat n"
  by (simp add: slice_to_def)

lemma set_slice_to: "set (slice_to n xs) \<subseteq> set xs"
  by (auto simp: slice_to_def dest: in_set_takeD)

lemma set_sort_reverse: "set (sort_reverse key xs) = set xs"
  by (simp add: sort_reverse_def)

lemma sorted_sort_reverse:
  "sorted_wrt (\<lambda>a b. key b \<le> key a) (sort_reverse key xs)"
proof -
  have "sorted (map key (sort_key key (rev xs)))" by (rule sorted_sort_key)
  then have "sorted_wrt (\<lambda>a b. key a \<le> key b) (sort_key key (rev xs))"
    by (simp add: sorted_map)
  then show ?thesis
    by (simp add: sort_reverse_def sorted_wrt_rev)
qed

lemma sorted_slice_to:
  "sorted_wrt P xs \<Longrightarrow> sorted_wrt P (slice_to n xs)"
  by (simp add: slice_to_def sorted_wrt_take)

lemma glob_suffix: "p \<in> set (glob w dir ext) \<Longrightarrow> suffix ext p"
  by (auto simp: glob_def pjoin_def suffix_def)

lemma collect_images_subset:
  "set (collect_images w dir n) \<subseteq> (\<Union>ext \<in> set image_extensions. set (glob w dir ext))"
proof (cases "concat (map (glob w dir) image_extensions) = []")
  case True
  then show ?thesis by (simp add: collect_images_def)
next
  case False
  then have "collect_images w dir n
      = slice_to n (sort_reverse (getmtime w) (concat (map (glob w dir) image_extensions)))"
    by (simp add: collect_images_def Let_def)
  then show ?thesis
    using set_slice_to [of n "sort_reverse (getmtime w) (concat (map (glob w dir) image_extensions))"]
    by (auto simp: set_sort_reverse)
qed

text \<open>
  Claim C8. For a directory and a count \<open>n\<close> (a count is not negative), the collector
  returns at most \<open>n\<close> paths; every returned path ends with one of the extensions
  \<open>.png\<close>, \<open>.jpg\<close>, \<open>.jpeg\<close>, \<open>.webp\<close>; the returned paths are in descending order
  of modification time; when no name of the directory has one of the extensions the
  result is the empty list, which is a value and not an error; and the result is the
  first \<open>n\<close> of all the matching paths in that order.
\<close>

theorem collect_images_contract:
  "(0 \<le> n \<longrightarrow> length (collect_images w dir n) \<le> nat n)
   \<and> (\<forall>p \<in> set (collect_images w dir n). \<exists>ext \<in> set image_extensions. suffix ext p)
   \<and> sorted_wrt (\<lambda>a b. getmtime w b \<le> getmtime w a) (collect_images w dir n)
   \<and> ((\<forall>name \<in> set (listdir w dir). \<forall>ext \<in> set image_extensions. \<not> suffix ext name)
        \<longrightarrow> collect_images w dir n = [])
   \<and> (0 \<le> n \<longrightarrow>
        collect_images w dir n
          = take (nat n) (sort_reverse (getmtime w)
                            (concat (map (glob w dir) image_extensions))))"
proof -
  let ?all = "concat (map (glob w dir) image_extensions)"
  have eq: "collect_images w dir n
              = (if ?all \<noteq> [] then slice_to n (sort_reverse (getmtime w) ?all) else [])"
    by (simp add: collect_images_def Let_def)
  have len: "length (collect_images w dir n) \<le> nat n" if "0 \<le> n"
    unfolding eq
    using slice_to_length [OF that, of "sort_reverse (getmtime w) ?all"] by simp
  have ext: "\<exists>ext \<in> set image_extensions. suffix ext p" if "p \<in> set (collect_images w dir n)" for p
    using collect_images_subset [of w dir n] that glob_suffix by blast
  have srt: "sorted_wrt (\<lambda>a b. getmtime w b \<le> getmtime w a) (collect_images w dir n)"
    unfolding eq by (simp add: sorted_slice_to sorted_sort_reverse)
  have none: "collect_images w dir n = []"
    if "\<forall>name \<in> set (listdir w dir). \<forall>ext \<in> set image_extensions. \<not> suffix ext name"
  proof -
    have "glob w dir ext = []" if "ext \<in> set image_extensions" for ext
      using \<open>\<forall>name \<in> set (listdir w dir). \<forall>ext \<in> set image_extensions. \<not> suffix ext name\<close> that
      by (auto simp: glob_def filter_empty_conv)
    then have "?all = []" by simp
    then show ?thesis by (simp add: eq)
  qed
  have first: "collect_images w dir n = take (nat n) (sort_reverse (getmtime w) ?all)"
    if "0 \<le> n"
  proof (cases "?all = []")
    case True
    have "sort_reverse (getmtime w) [] = []" by (simp add: sort_reverse_def)
    then show ?thesis unfolding eq True by simp
  next
    case False
    then show ?thesis using that by (simp add: eq slice_to_def)
  qed
  show ?thesis using len ext srt none first by blast
qed

theorem collect_images_contract_witness:
  "collect_images flaky_world ''generated_images/img_1'' 1 = [''generated_images/img_1/b.png'']
   \<and> length (collect_images flaky_world ''generated_images/img_1'' 1) \<le> 1
   \<and> collect_images chatty_world ''generated_images/img_1'' 3 = []"
proof -
  have all: "concat (map (glob flaky_world ''generated_images/img_1'') image_extensions)
               = [''generated_images/img_1/a.png'', ''generated_images/img_1/b.png'']"
    by (simp add: glob_def image_extensions_def flaky_world_def pjoin_def suffix_to_prefix)
  have srt: "sort_reverse (getmtime flaky_world)
               [''generated_images/img_1/a.png'', ''generated_images/img_1/b.png'']
             = [''generated_images/img_1/b.png'', ''generated_images/img_1/a.png'']"
    by (simp add: sort_reverse_def flaky_world_def)
  note a = collect_images_contract [of 1 flaky_world "''generated_images/img_1''"]
  note b = collect_images_contract [of 3 chatty_world "''generated_images/img_1''"]
  have a': "collect_images flaky_world ''generated_images/img_1'' 1
              = [''generated_images/img_1/b.png'']
          \<and> length (collect_images flaky_world ''generated_images/img_1'' 1) \<le> 1"
    using a by (simp add: all srt)
  have b': "collect_images chatty_world ''generated_images/img_1'' 3 = []"
    using b by (simp add: chatty_world_def)
  show ?thesis using a' b' by simp
qed

text \<open>
  The count is a Python integer; for a negative one the slice drops paths from the end
  of the sorted list instead, which is why the bound above is stated for counts.
\<close>

lemma collect_images_negative_count:
  "collect_images flaky_world ''generated_images/img_1'' (- 1) = [''generated_images/img_1/b.png'']"
  by (simp add: collect_images_def glob_def image_extensions_def flaky_world_def pjoin_def
        sort_reverse_def slice_to_def suffix_to_prefix)


section \<open>The error of a failed job\<close>




lemma failure_message_not_Nil: "failure_message rc \<noteq> []"
  by (simp add: failure_message_def)






section \<open>Further instances\<close>

theorem update_progress_caps_witness:
  "update_progress ''ghost'' 50 (sink (idle 1)) = sink (idle 1)
   \<and> map_option progress
        (status_dict (update_progress ''img_1'' 100
                        (submitted ''img_1'' 0 example_request (sink (idle 1)))) ''img_1'')
       = Some 95
   \<and> progress (last (job_records example_pipeline chatty_world 0 1 2 ''img_1''
                       example_request (idle 1))) = 100
   \<and> status (last (job_records example_pipeline chatty_world 0 1 2 ''img_1''
                     example_request (idle 1))) = COMPLETED"
proof -
  let ?recs = "job_records example_pipeline chatty_world 0 1 2 ''img_1'' example_request (idle 1)"
  note a = update_progress_caps [of "sink (idle 1)" "''ghost''" 50 example_pipeline chatty_world
      0 1 2 example_request "idle 1"]
  note b = update_progress_caps [of "submitted ''img_1'' 0 example_request (sink (idle 1))"
      "''img_1''" 100 example_pipeline chatty_world 0 1 2 example_request "idle 1"]
  have "status_dict (sink (idle 1)) ''ghost'' = None"
    by (simp add: idle_def)
  then have a': "update_progress ''ghost'' 50 (sink (idle 1)) = sink (idle 1)"
    using a [THEN conjunct1] by simp
  have "status_dict (submitted ''img_1'' 0 example_request (sink (idle 1))) ''img_1''
          = Some (new_job 0 example_request)"
    by (simp add: submitted_def)
  from b [THEN conjunct2, THEN conjunct1, THEN spec, THEN mp, OF this]
  have b': "map_option progress
        (status_dict (update_progress ''img_1'' 100
                        (submitted ''img_1'' 0 example_request (sink (idle 1)))) ''img_1'')
       = Some 95"
    by simp
  have l: "last ?recs
        = task_outcome chatty_world 1 2
            (exit_result chatty_world example_pipeline ''img_1'' example_request 0)
            (progress_after ((new_job 0 example_request)\<lparr>status := PROCESSING, progress := 10\<rparr>)
               (callbacks (ramp 30 (progress_lines chatty_output))
                  (exit_result chatty_world example_pipeline ''img_1'' example_request 0)))"
    by (rule job_single(2)) (simp_all add: enterable_def concrete_popen)
  have p: "progress (last ?recs) = 100"
    unfolding l by (simp add: progress_task_outcome exit_result_def)
  have m: "last ?recs \<in> set ?recs"
    by (rule job_records_last_mem)
  have "95 < progress (last ?recs) \<longrightarrow>
          status (last ?recs) = COMPLETED \<and> progress (last ?recs) = 100"
    by (rule bspec [OF b [THEN conjunct2, THEN conjunct2] m])
  then have c': "status (last ?recs) = COMPLETED"
    using p by simp
  show ?thesis using a' b' p c' by simp
qed


lemma chatty_forwarded: "forwarded chatty_output = [32, 34]"
  by (simp add: forwarded_def chatty_progress_lines upt_rec)

lemma flaky_forwarded:
  "forwarded [''step 1\<newline>'', ''step 2\<newline>''] = [32, 34]"
  "forwarded [''step 1\<newline>''] = [32]"
  using flaky_progress_lines ramp_30_small by (simp_all add: ramp_forwarded [symmetric])

lemma chatty_call_launched:
  "launched (snd (execute_inference example_pipeline chatty_world [''python3'', ''inference.py'']
                    Map.empty recorder ''generated_images/img_1'' 1
                    \<lparr>device_count = 1, cwd = ''srv'', runs = [], launched = [], sink = []\<rparr>))
     = [[''python3'', ''inference.py'']]"
  by (subst execute_inference_no_fallback)
     (simp_all add: falls_back_def attempt_def enterable_def concrete_popen workdir_def)

lemma flaky_call_launched:
  "launched (snd (execute_inference two_device_pipeline flaky_world
                    (job_distributed_cmd two_device_pipeline 2 ''img_1'' example_request)
                    (distributed_env flaky_world 2) recorder ''generated_images/img_1'' 2
                    \<lparr>device_count = 2, cwd = ''srv/api'', runs = [], launched = [], sink = []\<rparr>))
     = [job_distributed_cmd two_device_pipeline 2 ''img_1'' example_request,
        fallback_cmd two_device_pipeline ''generated_images/img_1'' 2]"
proof -
  obtain c0 cs where c: "job_distributed_cmd two_device_pipeline 2 ''img_1'' example_request
                           = c0 # cs"
    by (simp add: job_distributed_cmd_def distributed_cmd_def)
  have h: "hd (c0 # cs) = ''torchrun''"
    unfolding c [symmetric] by simp
  have p: "popen flaky_world (c0 # cs) (distributed_env flaky_world 2)
             = Exited [''step 1\<newline>'', ''step 2\<newline>''] 1"
    unfolding concrete_popen h by simp
  have f: "hd (fallback_cmd two_device_pipeline ''generated_images/img_1'' 2) = ''python3''"
    by (simp add: fallback_cmd_def single_cmd_def)
  show ?thesis
    unfolding c
    by (subst execute_inference_fallback [OF _ _ p])
       (simp_all add: sublist_torchrun_distributed [OF c] enterable_def workdir_def attempt_def
          concrete_popen f)
qed

theorem runner_forwards_progress_witness:
  "sink (snd (execute_inference example_pipeline chatty_world [''python3'', ''inference.py'']
                Map.empty recorder ''generated_images/img_1'' 1
                \<lparr>device_count = 1, cwd = ''srv'', runs = [], launched = [], sink = []\<rparr>))
     = [32, 34]
   \<and> sink (snd (execute_inference two_device_pipeline flaky_world
                  (job_distributed_cmd two_device_pipeline 2 ''img_1'' example_request)
                  (distributed_env flaky_world 2) recorder ''generated_images/img_1'' 2
                  \<lparr>device_count = 2, cwd = ''srv/api'', runs = [], launched = [], sink = []\<rparr>))
     = [32, 34, 32]"
proof -
  note a = runner_forwards_progress [OF refl refl, of example_pipeline chatty_world
      "[''python3'', ''inference.py'']" Map.empty "''generated_images/img_1''" 1
      "\<lparr>device_count = 1, cwd = ''srv'', runs = [], launched = [], sink = []\<rparr>"]
  note b = runner_forwards_progress [OF refl refl, of two_device_pipeline flaky_world
      "job_distributed_cmd two_device_pipeline 2 ''img_1'' example_request"
      "distributed_env flaky_world 2" "''generated_images/img_1''" 2
      "\<lparr>device_count = 2, cwd = ''srv/api'', runs = [], launched = [], sink = []\<rparr>"]
  have s1: "streamed chatty_world c e = chatty_output" for c e
    by (simp add: streamed_def concrete_popen)
  have s2: "streamed flaky_world
              (job_distributed_cmd two_device_pipeline 2 ''img_1'' example_request) e
              = [''step 1\<newline>'', ''step 2\<newline>'']"
    "streamed flaky_world (fallback_cmd two_device_pipeline ''generated_images/img_1'' 2) e
              = [''step 1\<newline>'']" for e
    by (simp_all add: streamed_def concrete_popen fallback_cmd_def single_cmd_def)
  have a': "sink (snd (execute_inference example_pipeline chatty_world
                [''python3'', ''inference.py'']
                Map.empty recorder ''generated_images/img_1'' 1
                \<lparr>device_count = 1, cwd = ''srv'', runs = [], launched = [], sink = []\<rparr>))
     = [32, 34]"
    using a [THEN conjunct1] by (simp add: chatty_call_launched s1 chatty_forwarded)
  have b': "sink (snd (execute_inference two_device_pipeline flaky_world
                  (job_distributed_cmd two_device_pipeline 2 ''img_1'' example_request)
                  (distributed_env flaky_world 2) recorder ''generated_images/img_1'' 2
                  \<lparr>device_count = 2, cwd = ''srv/api'', runs = [], launched = [], sink = []\<rparr>))
     = [32, 34, 32]"
    using b [THEN conjunct1] by (simp add: flaky_call_launched s2 flaky_forwarded)
  show ?thesis using a' b' by simp
qed

end
